theory Spec2Isabelle
  imports Complex_Main "HOL-Library.AList" "HOL-Library.Sublist"
begin

section \<open>Data model of \<^verbatim>\<open>MindMapCreator\<close> (src/mindmap.js)\<close>

text \<open>
  Modelling conventions.
  \<^item> A JavaScript \<^verbatim>\<open>Number\<close> that holds a coordinate, a size or the zoom factor is a
    rational number (\<^typ>\<open>rat\<close>): arithmetic is exact, the literals \<^verbatim>\<open>0.9\<close>, \<^verbatim>\<open>1.1\<close>,
    \<^verbatim>\<open>1.2\<close>, \<^verbatim>\<open>1.4\<close>, \<^verbatim>\<open>0.1\<close> are the decimal fractions they denote, and there is no
    NaN or infinity.  The two id counters are natural numbers.
  \<^item> A JavaScript string is a \<^typ>\<open>string\<close>, a list of code units, of which the model
    has the 256 values of \<^typ>\<open>char\<close>; its \<^verbatim>\<open>length\<close> is the length of the list.
  \<^item> A JavaScript \<^verbatim>\<open>Map\<close> is an association list in insertion order:
    \<^verbatim>\<open>get\<close> is \<^const>\<open>map_of\<close>, \<^verbatim>\<open>set\<close> is \<^const>\<open>AList.update\<close> (overwrite in place,
    else append), \<^verbatim>\<open>delete\<close> is \<^const>\<open>AList.delete\<close>.  A \<^verbatim>\<open>Set\<close> of ids is a list
    in insertion order.
  \<^item> Every method of the class is a function from the state before the call (and
    whatever the method reads from the event, the form fields or a dialog) to the
    state after it.  Calls that only touch the DOM (\<^verbatim>\<open>renderNode\<close>,
    \<^verbatim>\<open>renderConnection\<close>, \<^verbatim>\<open>updateTransform\<close>, \<^verbatim>\<open>updateNodeSelection\<close>, ...) leave
    the state as it is and are omitted.
\<close>

datatype shape = Circle | Square | Rectangle

datatype tool = SelectTool | NodeTool | ConnectionTool

record node =
  node_id :: string
  node_x :: rat
  node_y :: rat
  node_text :: string
  node_color :: string
  node_textColor :: string
  node_shape :: shape
  node_size :: rat
  node_radius :: rat

record connection =
  conn_id :: string
  conn_start :: string
  conn_end :: string

text \<open>The record written to \<^verbatim>\<open>localStorage\<close> by \<^verbatim>\<open>saveMindMap\<close>.\<close>

record mindmapData =
  md_title :: string
  md_nodes :: "(string \<times> node) list"
  md_connections :: "(string \<times> connection) list"
  md_nodeCounter :: nat
  md_connectionCounter :: nat
  md_savedAt :: string

text \<open>
  The fields of \<^verbatim>\<open>MindMapCreator\<close> set in the constructor, the three fields the edit
  dialog adds (\<^verbatim>\<open>selectedShape\<close>, \<^verbatim>\<open>currentEditingNode\<close>, \<^verbatim>\<open>currentEditingNodes\<close>), and the
  object stored under the key \<^verbatim>\<open>mindmaps\<close> of \<^verbatim>\<open>localStorage\<close> (\<open>savedMaps\<close>).  The
  temporary connection line is kept as its four coordinates.
\<close>

record state =
  nodes :: "(string \<times> node) list"
  connections :: "(string \<times> connection) list"
  selectedNodes :: "string list"
  selectedConnections :: "string list"
  currentTool :: tool
  isConnecting :: bool
  connectionStart :: "string option"
  tempConnection :: "(rat \<times> rat \<times> rat \<times> rat) option"
  isDragging :: bool
  dragOffset :: "rat \<times> rat"
  nodeCounter :: nat
  connectionCounter :: nat
  zoom :: rat
  pan :: "rat \<times> rat"
  selectedShape :: "shape option"
  currentEditingNode :: "string option"
  currentEditingNodes :: "string list option"
  savedMaps :: "(string \<times> mindmapData) list"

text \<open>The state the constructor leaves, with an empty \<^verbatim>\<open>localStorage\<close>.\<close>

definition init_state :: state where
  "init_state =
     \<lparr> nodes = [], connections = [], selectedNodes = [], selectedConnections = [],
       currentTool = SelectTool, isConnecting = False, connectionStart = None,
       tempConnection = None, isDragging = False, dragOffset = (0, 0),
       nodeCounter = 0, connectionCounter = 0, zoom = 1, pan = (0, 0),
       selectedShape = None, currentEditingNode = None, currentEditingNodes = None,
       savedMaps = [] \<rparr>"

subsection \<open>Strings\<close>

text \<open>Decimal digits of a counter, as the template literal \<^verbatim>\<open>`node_${n}`\<close> prints them.\<close>

definition digit_char :: "nat \<Rightarrow> char" where
  "digit_char d = ''0123456789'' ! d"

fun string_of_nat :: "nat \<Rightarrow> string" where
  "string_of_nat n =
     (if n < 10 then [digit_char n] else string_of_nat (n div 10) @ [digit_char (n mod 10)])"

declare string_of_nat.simps [simp del]

text \<open>A string in a condition: the empty string is falsy, as are \<^verbatim>\<open>null\<close> and \<^verbatim>\<open>undefined\<close>.\<close>

fun truthy :: "string option \<Rightarrow> bool" where
  "truthy None = False"
| "truthy (Some s) = (s \<noteq> [])"

text \<open>
  \<^verbatim>\<open>text.split(' ')\<close>: the pieces between single space characters, empty pieces
  included; the result is never empty (\<^verbatim>\<open>''.split(' ')\<close> is \<^verbatim>\<open>['']\<close>).
\<close>

fun split_space :: "string \<Rightarrow> string list" where
  "split_space [] = [[]]"
| "split_space (c # cs) =
     (if c = CHR '' '' then [] # split_space cs
      else (case split_space cs of w # ws \<Rightarrow> (c # w) # ws | [] \<Rightarrow> [[c]]))"

text \<open>
  The white space that \<^verbatim>\<open>String.prototype.trim\<close> strips, among the characters below
  256: tab, line feed, vertical tab, form feed, carriage return, space, no-break space.
\<close>

definition is_whitespace :: "char \<Rightarrow> bool" where
  "is_whitespace c \<longleftrightarrow> c \<in> set [CHR 0x09, CHR 0x0A, CHR 0x0B, CHR 0x0C, CHR 0x0D, CHR 0x20, CHR 0xA0]"

definition trim :: "string \<Rightarrow> string" where
  "trim str = rev (dropWhile is_whitespace (rev (dropWhile is_whitespace str)))"

text \<open>\<^verbatim>\<open>Math.max(...lengths)\<close> of a list that is never empty here.\<close>

fun max_list :: "nat list \<Rightarrow> nat" where
  "max_list [] = 0"
| "max_list [n] = n"
| "max_list (n # ns) = max n (max_list ns)"

subsection \<open>Sets of ids\<close>

definition set_add :: "string \<Rightarrow> string list \<Rightarrow> string list" where
  "set_add k ks = (if k \<in> set ks then ks else ks @ [k])"

definition set_delete :: "string \<Rightarrow> string list \<Rightarrow> string list" where
  "set_delete k ks = removeAll k ks"

section \<open>Geometry and layout\<close>

text \<open>
  The size computation of \<^verbatim>\<open>createNode\<close> (lines 333-346); \<^verbatim>\<open>saveNodeEdit\<close> (lines
  838-851) and \<^verbatim>\<open>saveMultipleNodeEdit\<close> (lines 886-897) repeat the same statements on
  \<^verbatim>\<open>node.text\<close> and \<^verbatim>\<open>node.shape\<close>.
\<close>

definition nodeSize :: "string \<Rightarrow> shape \<Rightarrow> rat" where
  "nodeSize text shp =
     (let words = split_space text;
          longestWord = max_list (map length words);
          totalWords = length words;
          minSize = 60;
          baseSize = max minSize (of_nat (longestWord * 8 + totalWords * 4))
      in if shp = Circle then baseSize * 1.4 else baseSize)"

text \<open>
  \<^verbatim>\<open>renderWrappedText(textElement, text, size, textColor, shape)\<close>, lines 1221-1289.
  The model returns \<^verbatim>\<open>lines\<close>, the texts of the \<^verbatim>\<open>tspan\<close> elements it appends.

  The limit \<^verbatim>\<open>maxCharsPerLine = Math.floor(maxWidth / avgCharWidth)\<close> is computed from the
  size and the shape in double arithmetic (lines 1223-1243), and exact arithmetic does
  not give the same floor for every size: for size 2800 and a circle, \<^verbatim>\<open>2800 * 0.7\<close> is
  \<open>1959.9999999999998\<close> and the limit is 244, where \<open>1960 / 8\<close> is 245.  So the limit is not
  computed here: it is the argument \<open>maxCharsPerLine\<close>, and what is proved of the lines is
  proved for every limit.  (A limit that is NaN makes every comparison of the loop false,
  as the limit \<open>-1\<close> does; an infinite one makes every comparison true, as a limit above
  the length of the text does.)  For size 84 and a circle the font size is 16, the
  width \<open>58.8\<close> and the limit \<open>floor (7.35) = 7\<close>.
\<close>

text \<open>The \<^verbatim>\<open>for (const word of words)\<close> loop, on the pair \<^verbatim>\<open>(lines, currentLine)\<close>.\<close>

fun wrapLoop :: "int \<Rightarrow> string list \<Rightarrow> string list \<times> string \<Rightarrow> string list \<times> string" where
  "wrapLoop maxCharsPerLine [] (lines, currentLine) = (lines, currentLine)"
| "wrapLoop maxCharsPerLine (word # ws) (lines, currentLine) =
     (let testLine = (if currentLine \<noteq> [] then currentLine @ '' '' @ word else word)
      in if int (length testLine) \<le> maxCharsPerLine
         then wrapLoop maxCharsPerLine ws (lines, testLine)
         else if currentLine \<noteq> [] then wrapLoop maxCharsPerLine ws (lines @ [currentLine], word)
         else wrapLoop maxCharsPerLine ws (lines @ [word], []))"

definition renderWrappedText :: "int \<Rightarrow> string \<Rightarrow> string list" where
  "renderWrappedText maxCharsPerLine text =
     (case wrapLoop maxCharsPerLine (split_space text) ([], []) of
        (lines, currentLine) \<Rightarrow> if currentLine \<noteq> [] then lines @ [currentLine] else lines)"

section \<open>Graph model\<close>

text \<open>\<^verbatim>\<open>createNode(x, y, text, color, textColor, shape)\<close>, lines 329-366.\<close>

definition createNode ::
  "rat \<Rightarrow> rat \<Rightarrow> string \<Rightarrow> string \<Rightarrow> string \<Rightarrow> shape \<Rightarrow> state \<Rightarrow> string \<times> state" where
  "createNode x y text color textColor shp s =
     (let counter = nodeCounter s + 1;
          nodeId = ''node_'' @ string_of_nat counter;
          sz = nodeSize text shp;
          n = \<lparr>node_id = nodeId, node_x = x, node_y = y, node_text = text,
               node_color = color, node_textColor = textColor, node_shape = shp,
               node_size = sz, node_radius = sz\<rparr>
      in (nodeId, s\<lparr>nodeCounter := counter, nodes := AList.update nodeId n (nodes s)\<rparr>))"

text \<open>\<^verbatim>\<open>moveNode(nodeId, x, y)\<close>, lines 645-660.\<close>

definition moveNode :: "string \<Rightarrow> rat \<Rightarrow> rat \<Rightarrow> state \<Rightarrow> state" where
  "moveNode nodeId x y s =
     (case map_of (nodes s) nodeId of
        None \<Rightarrow> s
      | Some n \<Rightarrow> s\<lparr>nodes := AList.update nodeId (n\<lparr>node_x := x, node_y := y\<rparr>) (nodes s)\<rparr>)"

text \<open>
  \<^verbatim>\<open>createConnection(startNodeId, endNodeId)\<close>, lines 491-502: the counter is incremented,
  the connection is stored and its id returned.  \<^verbatim>\<open>renderConnection\<close> returns early when
  an endpoint is missing; it draws and does not touch the state.
\<close>

definition createConnection :: "string \<Rightarrow> string \<Rightarrow> state \<Rightarrow> string \<times> state" where
  "createConnection startNodeId endNodeId s =
     (let counter = connectionCounter s + 1;
          connectionId = ''connection_'' @ string_of_nat counter;
          c = \<lparr>conn_id = connectionId, conn_start = startNodeId, conn_end = endNodeId\<rparr>
      in (connectionId,
          s\<lparr>connectionCounter := counter,
            connections := AList.update connectionId c (connections s)\<rparr>))"

text \<open>\<^verbatim>\<open>deleteConnection(connectionId)\<close>, lines 955-961.\<close>

definition deleteConnection :: "string \<Rightarrow> state \<Rightarrow> state" where
  "deleteConnection connectionId s =
     s\<lparr>connections := AList.delete connectionId (connections s)\<rparr>"

text \<open>
  \<^verbatim>\<open>deleteNode(nodeId)\<close>, lines 931-950: collect the keys of the connections that start
  or end at the node, delete each of them, then delete the node.
\<close>

definition deleteNode :: "string \<Rightarrow> state \<Rightarrow> state" where
  "deleteNode nodeId s =
     (let connectionsToDelete =
            map fst (filter (\<lambda>(connectionId, c). conn_start c = nodeId \<or> conn_end c = nodeId)
                       (connections s));
          s1 = fold deleteConnection connectionsToDelete s
      in s1\<lparr>nodes := AList.delete nodeId (nodes s1)\<rparr>)"

section \<open>Selection\<close>

definition clearSelection :: "state \<Rightarrow> state" where
  "clearSelection s = s\<lparr>selectedNodes := [], selectedConnections := []\<rparr>"

definition selectNode :: "string \<Rightarrow> state \<Rightarrow> state" where
  "selectNode nodeId s =
     (let s1 = clearSelection s in s1\<lparr>selectedNodes := set_add nodeId (selectedNodes s1)\<rparr>)"

definition toggleNodeSelection :: "string \<Rightarrow> state \<Rightarrow> state" where
  "toggleNodeSelection nodeId s =
     (if nodeId \<in> set (selectedNodes s)
      then s\<lparr>selectedNodes := set_delete nodeId (selectedNodes s)\<rparr>
      else s\<lparr>selectedNodes := set_add nodeId (selectedNodes s)\<rparr>)"

definition selectConnection :: "string \<Rightarrow> state \<Rightarrow> state" where
  "selectConnection connectionId s =
     (let s1 = clearSelection s
      in s1\<lparr>selectedConnections := set_add connectionId (selectedConnections s1)\<rparr>)"

text \<open>\<^verbatim>\<open>deleteSelected()\<close>, lines 914-926.\<close>

definition deleteSelected :: "state \<Rightarrow> state" where
  "deleteSelected s =
     clearSelection (fold deleteNode (selectedNodes s)
                       (fold deleteConnection (selectedConnections s) s))"

text \<open>\<^verbatim>\<open>clearAll()\<close>, lines 966-976; \<open>confirmed\<close> is the answer to the \<^verbatim>\<open>confirm\<close> dialog.\<close>

definition clearAll :: "bool \<Rightarrow> state \<Rightarrow> state" where
  "clearAll confirmed s =
     (if confirmed
      then (clearSelection (s\<lparr>nodes := [], connections := []\<rparr>))
             \<lparr>nodeCounter := 0, connectionCounter := 0\<rparr>
      else s)"

section \<open>View transform\<close>

text \<open>\<^verbatim>\<open>zoomIn\<close>, \<^verbatim>\<open>zoomOut\<close>, \<^verbatim>\<open>resetZoom\<close> (lines 981-1001) and \<^verbatim>\<open>handleCanvasWheel\<close> (lines 285-291).\<close>

definition zoomIn :: "state \<Rightarrow> state" where
  "zoomIn s = s\<lparr>zoom := min 3 (zoom s * 1.2)\<rparr>"

definition zoomOut :: "state \<Rightarrow> state" where
  "zoomOut s = s\<lparr>zoom := max 0.1 (zoom s / 1.2)\<rparr>"

definition resetZoom :: "state \<Rightarrow> state" where
  "resetZoom s = s\<lparr>zoom := 1, pan := (0, 0)\<rparr>"

definition handleCanvasWheel :: "rat \<Rightarrow> state \<Rightarrow> state" where
  "handleCanvasWheel deltaY s =
     (let delta = (if deltaY > 0 then 0.9 else 1.1);
          z = zoom s * delta
      in s\<lparr>zoom := max 0.1 (min 3 z)\<rparr>)"

section \<open>Interaction\<close>

definition clearTempConnection :: "state \<Rightarrow> state" where
  "clearTempConnection s = (if tempConnection s \<noteq> None then s\<lparr>tempConnection := None\<rparr> else s)"

text \<open>\<^verbatim>\<open>setTool(tool)\<close>, lines 169-186.\<close>

definition setTool :: "tool \<Rightarrow> state \<Rightarrow> state" where
  "setTool t s =
     clearTempConnection (s\<lparr>currentTool := t, isConnecting := False, connectionStart := None\<rparr>)"

text \<open>
  \<^verbatim>\<open>handleCanvasClick(e)\<close>, lines 191-206.  \<open>x\<close>, \<open>y\<close> are the click's coordinates
  relative to the canvas, \<open>onNode\<close> says whether \<^verbatim>\<open>e.target.closest('.mindmap-node')\<close>
  found an element.
\<close>

definition handleCanvasClick :: "rat \<Rightarrow> rat \<Rightarrow> bool \<Rightarrow> state \<Rightarrow> state" where
  "handleCanvasClick x y onNode s =
     (if currentTool s = NodeTool then
        (let adjustedX = (x / zoom s) - fst (pan s);
             adjustedY = (y / zoom s) - snd (pan s)
         in snd (createNode adjustedX adjustedY ''New Node'' ''#4A90E2'' ''#FFFFFF'' Circle s))
      else if currentTool s = SelectTool then
        (if \<not> onNode then clearSelection s else s)
      else s)"

text \<open>\<^verbatim>\<open>updateTempConnection(x, y)\<close>, lines 539-556.\<close>

definition updateTempConnection :: "rat \<Rightarrow> rat \<Rightarrow> state \<Rightarrow> state" where
  "updateTempConnection x y s =
     (if \<not> truthy (connectionStart s) then s
      else (case map_of (nodes s) (the (connectionStart s)) of
              None \<Rightarrow> s
            | Some startNode \<Rightarrow>
                (clearTempConnection s)\<lparr>tempConnection := Some (node_x startNode, node_y startNode, x, y)\<rparr>))"

text \<open>\<^verbatim>\<open>handleCanvasMouseMove(e)\<close>, lines 211-232.\<close>

definition handleCanvasMouseMove :: "rat \<Rightarrow> rat \<Rightarrow> state \<Rightarrow> state" where
  "handleCanvasMouseMove x y s =
     (let s1 = (if isDragging s \<and> length (selectedNodes s) > 0 then
                  (let mouseX = x / zoom s - fst (pan s);
                       mouseY = y / zoom s - snd (pan s);
                       newX = mouseX - fst (dragOffset s);
                       newY = mouseY - snd (dragOffset s)
                   in fold (\<lambda>nodeId. moveNode nodeId newX newY) (selectedNodes s) s)
                else s)
      in if isConnecting s1 \<and> truthy (connectionStart s1) then updateTempConnection x y s1 else s1)"

text \<open>
  \<^verbatim>\<open>handleCanvasMouseDown(e)\<close>, lines 237-272.  \<open>target\<close> is the \<^verbatim>\<open>data-node-id\<close> of the
  node element under the pointer, if there is one.
\<close>

definition handleCanvasMouseDown ::
  "string option \<Rightarrow> bool \<Rightarrow> bool \<Rightarrow> rat \<Rightarrow> rat \<Rightarrow> state \<Rightarrow> state" where
  "handleCanvasMouseDown target ctrlKey metaKey x y s =
     (case target of
        None \<Rightarrow> s
      | Some nodeId \<Rightarrow>
          if currentTool s \<noteq> SelectTool then s
          else (case map_of (nodes s) nodeId of
                  None \<Rightarrow> s
                | Some n \<Rightarrow>
                    if \<not> ctrlKey \<and> \<not> metaKey then
                      (let s1 = (if nodeId \<notin> set (selectedNodes s)
                                 then (let s0 = clearSelection s
                                       in s0\<lparr>selectedNodes := set_add nodeId (selectedNodes s0)\<rparr>)
                                 else s);
                           mouseX = x / zoom s1 - fst (pan s1);
                           mouseY = y / zoom s1 - snd (pan s1)
                       in s1\<lparr>isDragging := True,
                             dragOffset := (mouseX - node_x n, mouseY - node_y n)\<rparr>)
                    else s))"

definition handleCanvasMouseUp :: "state \<Rightarrow> state" where
  "handleCanvasMouseUp s = s\<lparr>isDragging := False\<rparr>"

text \<open>\<^verbatim>\<open>startConnection\<close>, \<^verbatim>\<open>completeConnection\<close>, lines 470-486.\<close>

definition startConnection :: "string \<Rightarrow> state \<Rightarrow> state" where
  "startConnection nodeId s =
     selectNode nodeId (s\<lparr>isConnecting := True, connectionStart := Some nodeId\<rparr>)"

definition completeConnection :: "string \<Rightarrow> state \<Rightarrow> state" where
  "completeConnection nodeId s =
     (let s1 = (if truthy (connectionStart s) \<and> connectionStart s \<noteq> Some nodeId
                then snd (createConnection (the (connectionStart s)) nodeId s)
                else s)
      in clearTempConnection (s1\<lparr>isConnecting := False, connectionStart := None\<rparr>))"

text \<open>\<^verbatim>\<open>handleNodeClick(e, nodeId)\<close>, lines 444-465.\<close>

definition handleNodeClick :: "bool \<Rightarrow> bool \<Rightarrow> string \<Rightarrow> state \<Rightarrow> state" where
  "handleNodeClick ctrlKey metaKey nodeId s =
     (if currentTool s = ConnectionTool then
        (if \<not> isConnecting s then startConnection nodeId s
         else if connectionStart s \<noteq> Some nodeId then completeConnection nodeId s
         else s)
      else if currentTool s = SelectTool then
        (if ctrlKey \<or> metaKey then toggleNodeSelection nodeId s else selectNode nodeId s)
      else s)"

definition handleConnectionClick :: "string \<Rightarrow> state \<Rightarrow> state" where
  "handleConnectionClick connectionId s =
     (if currentTool s = SelectTool then selectConnection connectionId s else s)"

text \<open>
  \<^verbatim>\<open>handleKeyDown(e)\<close>, lines 296-316.  \<open>inInput\<close> says whether the event's target is an
  \<^verbatim>\<open>INPUT\<close> or a \<^verbatim>\<open>TEXTAREA\<close>; Ctrl+S opens the save dialog, which changes no field.
\<close>

definition handleKeyDown :: "string \<Rightarrow> bool \<Rightarrow> bool \<Rightarrow> state \<Rightarrow> state" where
  "handleKeyDown key ctrlKey inInput s =
     (if inInput then s
      else if key = ''Delete'' \<or> key = ''Backspace'' then deleteSelected s
      else if key = ''Escape'' then setTool SelectTool (clearSelection s)
      else s)"

section \<open>Editing\<close>

definition hideNodeModal :: "state \<Rightarrow> state" where
  "hideNodeModal s = s\<lparr>currentEditingNode := None, currentEditingNodes := None\<rparr>"

text \<open>
  \<^verbatim>\<open>editMultipleNodes()\<close>, lines 743-778.  When the first selected id has no node,
  \<^verbatim>\<open>firstNode.color\<close> throws after \<^verbatim>\<open>currentEditingNodes\<close> has been assigned.
\<close>

definition editMultipleNodes :: "state \<Rightarrow> state" where
  "editMultipleNodes s =
     (let s1 = s\<lparr>currentEditingNodes := Some (selectedNodes s)\<rparr>
      in case selectedNodes s of
           [] \<Rightarrow> s1
         | firstNodeId # _ \<Rightarrow>
             (case map_of (nodes s) firstNodeId of
                None \<Rightarrow> s1
              | Some firstNode \<Rightarrow> s1\<lparr>selectedShape := Some (node_shape firstNode)\<rparr>))"

text \<open>\<^verbatim>\<open>editNode(nodeId)\<close>, lines 705-738.\<close>

definition editNode :: "string \<Rightarrow> state \<Rightarrow> state" where
  "editNode nodeId s =
     (if length (selectedNodes s) > 1 then editMultipleNodes s
      else (case map_of (nodes s) nodeId of
              None \<Rightarrow> s
            | Some n \<Rightarrow> s\<lparr>currentEditingNode := Some nodeId,
                           selectedShape := Some (node_shape n)\<rparr>))"

text \<open>
  The body of the \<^verbatim>\<open>forEach\<close> of \<^verbatim>\<open>saveMultipleNodeEdit\<close> (lines 874-906) for one id.
\<close>

definition editOne :: "string \<Rightarrow> string \<Rightarrow> shape option \<Rightarrow> string \<Rightarrow> state \<Rightarrow> state" where
  "editOne newColor newTextColor newShape nodeId s =
     (case map_of (nodes s) nodeId of
        None \<Rightarrow> s
      | Some n \<Rightarrow>
          (let n1 = n\<lparr>node_color := newColor, node_textColor := newTextColor\<rparr>;
               n2 = (case newShape of Some shp \<Rightarrow> n1\<lparr>node_shape := shp\<rparr> | None \<Rightarrow> n1);
               baseSize = nodeSize (node_text n2) (node_shape n2);
               n3 = n2\<lparr>node_size := baseSize, node_radius := baseSize\<rparr>
           in s\<lparr>nodes := AList.update nodeId n3 (nodes s)\<rparr>))"

text \<open>
  \<^verbatim>\<open>saveMultipleNodeEdit()\<close>, lines 868-909.  \<open>newColor\<close> and \<open>newTextColor\<close> are the values
  of the two colour fields of the dialog.
\<close>

definition saveMultipleNodeEdit :: "string \<Rightarrow> string \<Rightarrow> state \<Rightarrow> state" where
  "saveMultipleNodeEdit newColor newTextColor s =
     (case currentEditingNodes s of
        None \<Rightarrow> s
      | Some ids \<Rightarrow>
          hideNodeModal (fold (editOne newColor newTextColor (selectedShape s)) ids s))"

text \<open>
  \<^verbatim>\<open>saveNodeEdit()\<close>, lines 810-863.  \<open>textValue\<close> is the value of the text field before
  \<^verbatim>\<open>trim()\<close>.
\<close>

definition saveNodeEdit :: "string \<Rightarrow> string \<Rightarrow> string \<Rightarrow> state \<Rightarrow> state" where
  "saveNodeEdit textValue newColor newTextColor s =
     (if (case currentEditingNodes s of Some ids \<Rightarrow> length ids > 1 | None \<Rightarrow> False)
      then saveMultipleNodeEdit newColor newTextColor s
      else if \<not> truthy (currentEditingNode s) then s
      else (case map_of (nodes s) (the (currentEditingNode s)) of
              None \<Rightarrow> s
            | Some n \<Rightarrow>
                (let newText = trim textValue;
                     newShape = (case selectedShape s of Some shp \<Rightarrow> shp | None \<Rightarrow> node_shape n);
                     n1 = n\<lparr>node_color := newColor, node_textColor := newTextColor,
                            node_shape := newShape\<rparr>;
                     n2 = (if newText \<noteq> [] then n1\<lparr>node_text := newText\<rparr> else n1);
                     baseSize = nodeSize (node_text n2) (node_shape n2);
                     n3 = n2\<lparr>node_size := baseSize, node_radius := baseSize\<rparr>
                 in hideNodeModal
                      (s\<lparr>nodes := AList.update (the (currentEditingNode s)) n3 (nodes s)\<rparr>))))"

section \<open>Persistence\<close>

text \<open>
  \<^verbatim>\<open>localStorage\<close> holds the JSON text of \<open>savedMaps\<close>; the model keeps the value and
  takes \<^verbatim>\<open>JSON.parse(JSON.stringify(v))\<close> to be \<open>v\<close>.  \<^verbatim>\<open>Array.from(map.entries())\<close> is
  the association list itself; \<^verbatim>\<open>new Map(entries)\<close> inserts the entries in order.
\<close>

definition newMap :: "('k \<times> 'v) list \<Rightarrow> ('k \<times> 'v) list" where
  "newMap entries = fold (\<lambda>(k, v). AList.update k v) entries []"

text \<open>
  \<open>savedMaps\<close> is a plain object, \<^verbatim>\<open>JSON.parse(localStorage.getItem('mindmaps') || '{}')\<close>,
  used as a dictionary, so the properties it inherits from \<^verbatim>\<open>Object.prototype\<close> show:
  \<^item> \<^verbatim>\<open>savedMaps[fileName] = mindmapData\<close> with the name \<^verbatim>\<open>__proto__\<close> calls the inherited
    setter, which replaces the prototype and creates no property of the object's own;
    \<^verbatim>\<open>JSON.stringify(savedMaps)\<close> then writes the entries that were there before;
  \<^item> \<^verbatim>\<open>savedMaps[fileName]\<close> with a name that is not a key of the object but a property of
    \<^verbatim>\<open>Object.prototype\<close> is a function (or the prototype itself): not \<^verbatim>\<open>undefined\<close>, and
    without the fields \<^verbatim>\<open>nodes\<close>, \<^verbatim>\<open>connections\<close>, \<^verbatim>\<open>nodeCounter\<close>, \<^verbatim>\<open>connectionCounter\<close>.
\<close>

definition object_prototype_names :: "string list" where
  "object_prototype_names =
     [''constructor'', ''__defineGetter__'', ''__defineSetter__'', ''hasOwnProperty'',
      ''__lookupGetter__'', ''__lookupSetter__'', ''isPrototypeOf'', ''propertyIsEnumerable'',
      ''toString'', ''valueOf'', ''__proto__'', ''toLocaleString'']"

text \<open>
  \<^verbatim>\<open>saveMindMap()\<close>, lines 1063-1088.  \<open>fileNameValue\<close> is the value of the file name
  field, \<open>now\<close> the time stamp \<^verbatim>\<open>new Date().toISOString()\<close>.
\<close>

definition saveMindMap :: "string \<Rightarrow> string \<Rightarrow> state \<Rightarrow> state" where
  "saveMindMap fileNameValue now s =
     (let fileName = trim fileNameValue
      in if fileName = [] then s
         else (let mindmapData =
                     \<lparr>md_title = fileName, md_nodes = nodes s, md_connections = connections s,
                      md_nodeCounter = nodeCounter s,
                      md_connectionCounter = connectionCounter s, md_savedAt = now\<rparr>
               in if fileName = ''__proto__'' then s
                  else s\<lparr>savedMaps := AList.update fileName mindmapData (savedMaps s)\<rparr>))"

text \<open>
  \<^verbatim>\<open>loadMindMap()\<close>, lines 1093-1127.  \<open>selectedFile\<close> is the name shown by the selected
  entry of the list, if one is selected; \<open>confirmed\<close> answers the dialog of \<^verbatim>\<open>clearAll\<close>.
  \<^verbatim>\<open>new Map(undefined)\<close> is the empty map and \<^verbatim>\<open>undefined || 0\<close> is 0.
\<close>

definition loadMindMap :: "string option \<Rightarrow> bool \<Rightarrow> state \<Rightarrow> state" where
  "loadMindMap selectedFile confirmed s =
     (case selectedFile of
        None \<Rightarrow> s
      | Some fileName \<Rightarrow>
          (case map_of (savedMaps s) fileName of
             None \<Rightarrow>
               if fileName \<in> set object_prototype_names
               then (clearAll confirmed s)
                      \<lparr>nodes := newMap [], connections := newMap [],
                       nodeCounter := 0, connectionCounter := 0\<rparr>
               else s
           | Some mindmapData \<Rightarrow>
               (clearAll confirmed s)
                 \<lparr>nodes := newMap (md_nodes mindmapData),
                  connections := newMap (md_connections mindmapData),
                  nodeCounter := md_nodeCounter mindmapData,
                  connectionCounter := md_connectionCounter mindmapData\<rparr>))"

text \<open>\<^verbatim>\<open>deleteSavedFile(fileName)\<close>, lines 1171-1181.\<close>

definition deleteSavedFile :: "string \<Rightarrow> bool \<Rightarrow> state \<Rightarrow> state" where
  "deleteSavedFile fileName confirmed s =
     (if confirmed then s\<lparr>savedMaps := AList.delete fileName (savedMaps s)\<rparr> else s)"

text \<open>\<^verbatim>\<open>createWelcomeNode()\<close>, lines 157-164; the arguments are the centre of the canvas.\<close>

definition createWelcomeNode :: "rat \<Rightarrow> rat \<Rightarrow> state \<Rightarrow> state" where
  "createWelcomeNode centerX centerY s =
     snd (createNode centerX centerY ''Welcome to MindMap!'' ''#4A90E2'' ''#FFFFFF'' Circle s)"

section \<open>Events\<close>

text \<open>
  The listeners registered by \<^verbatim>\<open>setupEventListeners\<close>, \<^verbatim>\<open>setupToolbar\<close>, \<^verbatim>\<open>setupModals\<close>,
  \<^verbatim>\<open>renderNode\<close>, \<^verbatim>\<open>renderConnection\<close> and \<^verbatim>\<open>loadSavedFilesList\<close>, and the timer of
  \<^verbatim>\<open>init\<close>.  Each event carries what its handler reads from the event object, from the
  form fields and from the dialogs.  The handlers run to completion one after the other.
\<close>

datatype event =
    ToolButton tool
  | CanvasClick rat rat bool
  | CanvasMouseMove rat rat
  | CanvasMouseDown "string option" bool bool rat rat
  | CanvasMouseUp
  | CanvasWheel rat
  | KeyDown string bool bool
  | NodeClick bool bool string
  | NodeDblClick string
  | ConnectionClick string
  | ShapeOption shape
  | SaveEditButton string string string
  | CloseNodeModal
  | DeleteButton
  | ClearButton bool
  | ZoomInButton
  | ZoomOutButton
  | ResetZoomButton
  | ConfirmSave string string
  | ConfirmLoad "string option" bool
  | DeleteFileButton string bool
  | WelcomeTimer rat rat

fun step :: "event \<Rightarrow> state \<Rightarrow> state" where
  "step (ToolButton t) s = setTool t s"
| "step (CanvasClick x y onNode) s = handleCanvasClick x y onNode s"
| "step (CanvasMouseMove x y) s = handleCanvasMouseMove x y s"
| "step (CanvasMouseDown target ctrlKey metaKey x y) s =
     handleCanvasMouseDown target ctrlKey metaKey x y s"
| "step CanvasMouseUp s = handleCanvasMouseUp s"
| "step (CanvasWheel deltaY) s = handleCanvasWheel deltaY s"
| "step (KeyDown key ctrlKey inInput) s = handleKeyDown key ctrlKey inInput s"
| "step (NodeClick ctrlKey metaKey nodeId) s = handleNodeClick ctrlKey metaKey nodeId s"
| "step (NodeDblClick nodeId) s = editNode nodeId s"
| "step (ConnectionClick connectionId) s = handleConnectionClick connectionId s"
| "step (ShapeOption shp) s = s\<lparr>selectedShape := Some shp\<rparr>"
| "step (SaveEditButton textValue newColor newTextColor) s =
     saveNodeEdit textValue newColor newTextColor s"
| "step CloseNodeModal s = hideNodeModal s"
| "step DeleteButton s = deleteSelected s"
| "step (ClearButton confirmed) s = clearAll confirmed s"
| "step ZoomInButton s = zoomIn s"
| "step ZoomOutButton s = zoomOut s"
| "step ResetZoomButton s = resetZoom s"
| "step (ConfirmSave fileNameValue now) s = saveMindMap fileNameValue now s"
| "step (ConfirmLoad selectedFile confirmed) s = loadMindMap selectedFile confirmed s"
| "step (DeleteFileButton fileName confirmed) s = deleteSavedFile fileName confirmed s"
| "step (WelcomeTimer centerX centerY) s = createWelcomeNode centerX centerY s"

text \<open>The state after a sequence of events, the first of the list first.\<close>

definition run :: "event list \<Rightarrow> state \<Rightarrow> state" where
  "run evs s = fold step evs s"

section \<open>Notions of the specification\<close>

text \<open>
  The specification speaks of the words of a text "split on whitespace": the maximal
  runs of characters that are not white space.  \<open>words_of\<close> collects the runs, with the
  run being read in the first argument.
\<close>

fun words_of :: "string \<Rightarrow> string \<Rightarrow> string list" where
  "words_of w [] = (if w = [] then [] else [w])"
| "words_of w (c # cs) =
     (if is_whitespace c then (if w = [] then words_of [] cs else w # words_of [] cs)
      else words_of (w @ [c]) cs)"

definition words_ws :: "string \<Rightarrow> string list" where
  "words_ws text = words_of [] text"

text \<open>
  The size formula as the specification words it: \<open>max(60, longestWord*8 + wordCount*4)\<close>
  over the words split on white space, times 1.4 for a circle.
\<close>

definition spec_nodeSize :: "string \<Rightarrow> shape \<Rightarrow> rat" where
  "spec_nodeSize text shp =
     (let words = words_ws text;
          baseSize = max 60 (of_nat (max_list (map length words) * 8 + length words * 4))
      in if shp = Circle then baseSize * 1.4 else baseSize)"

text \<open>Lines joined back together with single spaces.\<close>

fun join_space :: "string list \<Rightarrow> string" where
  "join_space [] = []"
| "join_space [l] = l"
| "join_space (l # ls) = l @ '' '' @ join_space ls"

text \<open>
  The words as the code splits them: the pieces of the text between single spaces that are
  not empty.
\<close>

definition nonempty_pieces :: "string \<Rightarrow> string list" where
  "nonempty_pieces text = filter (\<lambda>w. w \<noteq> []) (split_space text)"

text \<open>The characters of a text other than spaces.\<close>

abbreviation no_space :: "string \<Rightarrow> string" where
  "no_space cs \<equiv> filter (\<lambda>c. c \<noteq> CHR '' '') cs"

text \<open>Every connection's two endpoints are keys of the node map.\<close>

definition endpoints_exist :: "state \<Rightarrow> bool" where
  "endpoints_exist s \<longleftrightarrow>
     (\<forall>(k, c) \<in> set (connections s).
        map_of (nodes s) (conn_start c) \<noteq> None \<and> map_of (nodes s) (conn_end c) \<noteq> None)"

section \<open>Invariants\<close>

text \<open>
  Ids and counters: the keys of a map are distinct and each is the prefix followed by a
  number between 1 and the counter.  \<open>ids_ok\<close> asks this of the document being edited and
  of every saved document.
\<close>

definition keys_bounded :: "string \<Rightarrow> (string \<times> 'a) list \<Rightarrow> nat \<Rightarrow> bool" where
  "keys_bounded pfx al counter \<longleftrightarrow>
     distinct (map fst al) \<and>
     (\<forall>k \<in> fst ` set al. \<exists>i \<in> {1..counter}. k = pfx @ string_of_nat i)"

definition ids_ok :: "state \<Rightarrow> bool" where
  "ids_ok s \<longleftrightarrow>
     keys_bounded ''node_'' (nodes s) (nodeCounter s) \<and>
     keys_bounded ''connection_'' (connections s) (connectionCounter s) \<and>
     (\<forall>(t, d) \<in> set (savedMaps s).
        keys_bounded ''node_'' (md_nodes d) (md_nodeCounter d) \<and>
        keys_bounded ''connection_'' (md_connections d) (md_connectionCounter d))"

text \<open>No connection from a node to itself, in the document and in every saved document.\<close>

definition no_self_loops :: "(string \<times> connection) list \<Rightarrow> bool" where
  "no_self_loops cs \<longleftrightarrow> (\<forall>(k, c) \<in> set cs. conn_start c \<noteq> conn_end c)"

definition loops_ok :: "state \<Rightarrow> bool" where
  "loops_ok s \<longleftrightarrow>
     (isConnecting s \<longrightarrow> currentTool s = ConnectionTool) \<and>
     no_self_loops (connections s) \<and>
     (\<forall>(t, d) \<in> set (savedMaps s). no_self_loops (md_connections d))"

text \<open>What the batch edit does to one node.\<close>

definition batch_edited :: "string \<Rightarrow> string \<Rightarrow> shape option \<Rightarrow> node \<Rightarrow> node" where
  "batch_edited newColor newTextColor newShape n =
     (let shp = (case newShape of Some sh \<Rightarrow> sh | None \<Rightarrow> node_shape n)
      in n\<lparr>node_color := newColor, node_textColor := newTextColor, node_shape := shp,
           node_size := nodeSize (node_text n) shp, node_radius := nodeSize (node_text n) shp\<rparr>)"

section \<open>Example documents\<close>

text \<open>
  The welcome node and two nodes added with the node tool: \<open>node_1\<close>, \<open>node_2\<close>, \<open>node_3\<close>.
\<close>

definition example_doc :: state where
  "example_doc =
     run [WelcomeTimer 400 300, ToolButton NodeTool, CanvasClick 10 10 False,
          CanvasClick 200 10 False] init_state"

text \<open>
  The same document after selecting \<open>node_1\<close> and adding \<open>node_2\<close> to the selection with
  Ctrl+click (\<open>example_selected\<close>), and after then opening the edit dialog by a double
  click and choosing the square shape (\<open>example_batch\<close>).
\<close>

definition example_selected :: state where
  "example_selected =
     run [ToolButton SelectTool, NodeClick False False ''node_1'',
          NodeClick True False ''node_2''] example_doc"

definition example_batch :: state where
  "example_batch = run [NodeDblClick ''node_1'', ShapeOption Square] example_selected"

text \<open>
  \<open>example_connected\<close>: the connection tool links \<open>node_1\<close> to \<open>node_2\<close> and \<open>node_2\<close> to
  \<open>node_3\<close>.  \<open>example_dangling\<close>: with the connection tool, a click on \<open>node_1\<close> starts
  a connection (and selects the node), the Delete key deletes the selected node, and a
  click on \<open>node_2\<close> completes the connection.
\<close>

definition example_connected :: state where
  "example_connected =
     run [ToolButton ConnectionTool, NodeClick False False ''node_1'',
          NodeClick False False ''node_2'', NodeClick False False ''node_2'',
          NodeClick False False ''node_3''] example_doc"

definition example_dangling :: state where
  "example_dangling =
     run [ToolButton ConnectionTool, NodeClick False False ''node_1'',
          KeyDown ''Delete'' False False, NodeClick False False ''node_2''] example_doc"

text \<open>\<open>example_connecting\<close>: the connection tool, and a click on \<open>node_1\<close>.\<close>

definition example_connecting :: state where
  "example_connecting =
     run [ToolButton ConnectionTool, NodeClick False False ''node_1''] example_doc"

section \<open>Auxiliary facts\<close>

lemma map_of_update_same: "map_of (AList.update k v al) k = Some v"
  by (simp add: AList.update_conv')

lemma map_of_update_other: "k' \<noteq> k \<Longrightarrow> map_of (AList.update k v al) k' = map_of al k'"
  by (simp add: AList.update_conv')

lemma update_keys_present:
  "map_of al k = Some v \<Longrightarrow> map fst (AList.update k v' al) = map fst al"
proof -
  assume "map_of al k = Some v"
  then have "k \<in> fst ` set al"
    by (metis domI dom_map_of_conv_image_fst)
  then show ?thesis
    by (simp add: AList.update_keys)
qed

lemma fold_field:
  assumes "\<And>x s. g (f x s) = g s"
  shows "g (fold f xs s) = g s"
  by (induction xs arbitrary: s) (simp_all add: assms)

lemma fold_invariant:
  assumes "\<And>x s. I s \<Longrightarrow> I (f x s)" and "I s"
  shows "I (fold f xs s)"
  using assms(2) by (induction xs arbitrary: s) (simp_all add: assms(1))

section \<open>Moving a node\<close>

text \<open>
  C10.  \<^verbatim>\<open>moveNode(id, x, y)\<close> on a node that is present overwrites its two position
  fields and nothing else: the node keeps its id, text, colours, shape and size, every
  other node is the one it was, the order of the node map is kept, and the connections
  and every other field of the state are unchanged.  On an absent id the whole state is
  unchanged.
\<close>

theorem moveNode_frame:
  "(map_of (nodes s) nodeId = None \<longrightarrow> moveNode nodeId x y s = s) \<and>
   (\<forall>n. map_of (nodes s) nodeId = Some n \<longrightarrow>
      map_of (nodes (moveNode nodeId x y s)) = (map_of (nodes s))(nodeId \<mapsto> n\<lparr>node_x := x, node_y := y\<rparr>) \<and>
      map fst (nodes (moveNode nodeId x y s)) = map fst (nodes s) \<and>
      connections (moveNode nodeId x y s) = connections s \<and>
      moveNode nodeId x y s = s\<lparr>nodes := nodes (moveNode nodeId x y s)\<rparr>)"
proof (intro conjI allI impI)
  assume "map_of (nodes s) nodeId = None"
  then show "moveNode nodeId x y s = s"
    by (simp add: moveNode_def)
next
  fix n assume n: "map_of (nodes s) nodeId = Some n"
  then show "map_of (nodes (moveNode nodeId x y s)) = (map_of (nodes s))(nodeId \<mapsto> n\<lparr>node_x := x, node_y := y\<rparr>)"
    by (simp add: moveNode_def AList.update_conv')
  from n show "map fst (nodes (moveNode nodeId x y s)) = map fst (nodes s)"
    by (simp add: moveNode_def update_keys_present)
  from n show "connections (moveNode nodeId x y s) = connections s"
    by (simp add: moveNode_def)
  from n show "moveNode nodeId x y s = s\<lparr>nodes := nodes (moveNode nodeId x y s)\<rparr>"
    by (simp add: moveNode_def)
qed

theorem moveNode_frame_witness:
  "map_of (nodes example_doc) ''node_2'' =
     Some \<lparr>node_id = ''node_2'', node_x = 10, node_y = 10, node_text = ''New Node'',
           node_color = ''#4A90E2'', node_textColor = ''#FFFFFF'', node_shape = Circle,
           node_size = 84, node_radius = 84\<rparr> \<and>
   map_of (nodes (moveNode ''node_2'' 5 7 example_doc)) ''node_2'' =
     Some \<lparr>node_id = ''node_2'', node_x = 5, node_y = 7, node_text = ''New Node'',
           node_color = ''#4A90E2'', node_textColor = ''#FFFFFF'', node_shape = Circle,
           node_size = 84, node_radius = 84\<rparr> \<and>
   connections (moveNode ''node_2'' 5 7 example_doc) = connections example_doc \<and>
   map_of (nodes example_doc) ''node_9'' = None \<and>
   moveNode ''node_9'' 5 7 example_doc = example_doc"
proof -
  have present: "map_of (nodes example_doc) ''node_2'' =
     Some \<lparr>node_id = ''node_2'', node_x = 10, node_y = 10, node_text = ''New Node'',
           node_color = ''#4A90E2'', node_textColor = ''#FFFFFF'', node_shape = Circle,
           node_size = 84, node_radius = 84\<rparr>"
    by code_simp
  have absent: "map_of (nodes example_doc) ''node_9'' = None"
    by code_simp
  from moveNode_frame [of example_doc "''node_2''" 5 7] present
  have "map_of (nodes (moveNode ''node_2'' 5 7 example_doc)) ''node_2'' =
     Some \<lparr>node_id = ''node_2'', node_x = 5, node_y = 7, node_text = ''New Node'',
           node_color = ''#4A90E2'', node_textColor = ''#FFFFFF'', node_shape = Circle,
           node_size = 84, node_radius = 84\<rparr>"
    and "connections (moveNode ''node_2'' 5 7 example_doc) = connections example_doc"
    by simp_all
  moreover from moveNode_frame [of example_doc "''node_9''" 5 7] absent
  have "moveNode ''node_9'' 5 7 example_doc = example_doc"
    by simp
  ultimately show ?thesis using present absent by simp
qed

section \<open>Ids\<close>

lemma digit_char_inj:
  assumes "a < 10" "b < 10" "digit_char a = digit_char b"
  shows "a = b"
proof -
  have a: "a \<in> {0, 1, 2, 3, 4, 5, 6, 7, 8, 9}" using assms(1) by auto
  have b: "b \<in> {0, 1, 2, 3, 4, 5, 6, 7, 8, 9}" using assms(2) by auto
  from a b assms(3) show ?thesis
    by (auto simp: digit_char_def)
qed

lemma string_of_nat_nonempty: "string_of_nat n \<noteq> []"
  by (subst string_of_nat.simps) simp

lemma string_of_nat_inj: "string_of_nat n = string_of_nat m \<Longrightarrow> n = m"
proof (induction n arbitrary: m rule: string_of_nat.induct)
  case (1 n)
  show ?case
  proof (cases "n < 10")
    case True
    then have n: "string_of_nat n = [digit_char n]"
      by (subst string_of_nat.simps) simp
    show ?thesis
    proof (cases "m < 10")
      case True
      then have "string_of_nat m = [digit_char m]"
        by (subst string_of_nat.simps) simp
      with n "1.prems" have "digit_char n = digit_char m" by simp
      with \<open>n < 10\<close> \<open>m < 10\<close> show ?thesis by (rule digit_char_inj)
    next
      case False
      then have "string_of_nat m = string_of_nat (m div 10) @ [digit_char (m mod 10)]"
        by (subst string_of_nat.simps) simp
      with n "1.prems" have "string_of_nat (m div 10) = []" by simp
      then show ?thesis by (simp add: string_of_nat_nonempty)
    qed
  next
    case False
    then have n: "string_of_nat n = string_of_nat (n div 10) @ [digit_char (n mod 10)]"
      by (subst string_of_nat.simps) simp
    show ?thesis
    proof (cases "m < 10")
      case True
      then have "string_of_nat m = [digit_char m]"
        by (subst string_of_nat.simps) simp
      with n "1.prems" have "string_of_nat (n div 10) = []" by simp
      then show ?thesis by (simp add: string_of_nat_nonempty)
    next
      case m: False
      then have "string_of_nat m = string_of_nat (m div 10) @ [digit_char (m mod 10)]"
        by (subst string_of_nat.simps) simp
      with n "1.prems" have eq: "string_of_nat (n div 10) = string_of_nat (m div 10)"
        and d: "digit_char (n mod 10) = digit_char (m mod 10)" by simp_all
      from "1.IH" [OF False eq] have q: "n div 10 = m div 10" .
      have "n mod 10 = m mod 10"
        by (rule digit_char_inj [OF _ _ d]) simp_all
      with q show ?thesis
        by (metis div_mult_mod_eq)
    qed
  qed
qed

lemma update_fresh: "k \<notin> fst ` set al \<Longrightarrow> AList.update k v al = al @ [(k, v)]"
  by (induction al) auto

lemma keys_bounded_iff:
  "keys_bounded pfx al counter \<longleftrightarrow>
     distinct (map fst al) \<and>
     (\<forall>k \<in> fst ` set al. \<exists>i. 1 \<le> i \<and> i \<le> counter \<and> k = pfx @ string_of_nat i)"
  unfolding keys_bounded_def Bex_def atLeastAtMost_iff conj_assoc by (rule refl)

lemma keys_bounded_fresh:
  assumes "keys_bounded pfx al counter" and "0 < j"
  shows "pfx @ string_of_nat (counter + j) \<notin> fst ` set al"
proof
  assume "pfx @ string_of_nat (counter + j) \<in> fst ` set al"
  with assms(1) obtain i where i: "i \<le> counter"
    and "pfx @ string_of_nat (counter + j) = pfx @ string_of_nat i"
    unfolding keys_bounded_iff by blast
  then have "counter + j = i"
    by (simp add: string_of_nat_inj)
  with i assms(2) show False by simp
qed

section \<open>Creating a connection\<close>

text \<open>
  C1, as the code has it.  \<^verbatim>\<open>createConnection(startNodeId, endNodeId)\<close> never looks at the
  node map.  For every state and every pair of ids, present or not, it increments the
  counter, stores the connection \<open>{id, start, end}\<close> under the id
  \<open>"connection_" + counter\<close>, leaves the nodes and every other connection as they were,
  and returns that id.  When the keys of the connection map are distinct ids numbered up
  to the counter, the id is a new key and the connection is appended.
\<close>

theorem createConnection_stores:
  "fst (createConnection a b s) = ''connection_'' @ string_of_nat (connectionCounter s + 1) \<and>
   connectionCounter (snd (createConnection a b s)) = connectionCounter s + 1 \<and>
   map_of (connections (snd (createConnection a b s))) =
     (map_of (connections s))
       (fst (createConnection a b s) \<mapsto>
          \<lparr>conn_id = fst (createConnection a b s), conn_start = a, conn_end = b\<rparr>) \<and>
   nodes (snd (createConnection a b s)) = nodes s \<and>
   (keys_bounded ''connection_'' (connections s) (connectionCounter s) \<longrightarrow>
      fst (createConnection a b s) \<notin> fst ` set (connections s) \<and>
      connections (snd (createConnection a b s)) =
        connections s @
          [(fst (createConnection a b s),
            \<lparr>conn_id = fst (createConnection a b s), conn_start = a, conn_end = b\<rparr>)])"
proof -
  have fresh: "''connection_'' @ string_of_nat (connectionCounter s + 1) \<notin> fst ` set (connections s)"
    if "keys_bounded ''connection_'' (connections s) (connectionCounter s)"
    using keys_bounded_fresh [OF that, of 1] by simp
  show ?thesis
    using fresh
    by (simp add: createConnection_def Let_def AList.update_conv' update_fresh)
qed

theorem createConnection_stores_witness:
  "keys_bounded ''connection_'' (connections example_connected) (connectionCounter example_connected) \<and>
   map_of (nodes example_connected) ''node_1'' \<noteq> None \<and>
   map_of (nodes example_connected) ''node_3'' \<noteq> None \<and>
   fst (createConnection ''node_1'' ''node_3'' example_connected) = ''connection_3'' \<and>
   connections (snd (createConnection ''node_1'' ''node_3'' example_connected)) =
     [(''connection_1'',
       \<lparr>conn_id = ''connection_1'', conn_start = ''node_1'', conn_end = ''node_2''\<rparr>),
      (''connection_2'',
       \<lparr>conn_id = ''connection_2'', conn_start = ''node_2'', conn_end = ''node_3''\<rparr>),
      (''connection_3'',
       \<lparr>conn_id = ''connection_3'', conn_start = ''node_1'', conn_end = ''node_3''\<rparr>)]"
proof -
  have before: "connections example_connected =
     [(''connection_1'',
       \<lparr>conn_id = ''connection_1'', conn_start = ''node_1'', conn_end = ''node_2''\<rparr>),
      (''connection_2'',
       \<lparr>conn_id = ''connection_2'', conn_start = ''node_2'', conn_end = ''node_3''\<rparr>)]"
    and counter: "connectionCounter example_connected = 2"
    by code_simp+
  have bounded: "keys_bounded ''connection_'' (connections example_connected) (connectionCounter example_connected)"
    by code_simp
  have three: "string_of_nat 3 = ''3''"
    by code_simp
  have present: "map_of (nodes example_connected) ''node_1'' \<noteq> None \<and>
      map_of (nodes example_connected) ''node_3'' \<noteq> None"
    by code_simp
  from createConnection_stores [of "''node_1''" "''node_3''" example_connected] bounded
  have "fst (createConnection ''node_1'' ''node_3'' example_connected) =
      ''connection_'' @ string_of_nat (connectionCounter example_connected + 1)"
    and "connections (snd (createConnection ''node_1'' ''node_3'' example_connected)) =
      connections example_connected @
        [(fst (createConnection ''node_1'' ''node_3'' example_connected),
          \<lparr>conn_id = fst (createConnection ''node_1'' ''node_3'' example_connected),
            conn_start = ''node_1'', conn_end = ''node_3''\<rparr>)]"
    by blast+
  with bounded present show ?thesis
    by (simp add: before counter three)
qed

text \<open>
  The claim C1 itself fails: with an end node that does not exist the call returns an id
  and the connection is in the map afterwards.
\<close>

theorem createConnection_missing_endpoint_counterexample:
  "map_of (nodes example_doc) ''missing'' = None \<and>
   fst (createConnection ''node_1'' ''missing'' example_doc) = ''connection_1'' \<and>
   map_of (connections (snd (createConnection ''node_1'' ''missing'' example_doc))) ''connection_1'' =
     Some \<lparr>conn_id = ''connection_1'', conn_start = ''node_1'', conn_end = ''missing''\<rparr> \<and>
   connections (snd (createConnection ''node_1'' ''missing'' example_doc)) \<noteq> connections example_doc"
  by code_simp

section \<open>View transform: zoom range and pan\<close>

lemma view_moveNode: "zoom (moveNode k x y s) = zoom s \<and> pan (moveNode k x y s) = pan s"
  by (simp add: moveNode_def split: option.split)

lemma view_deleteConnection:
  "zoom (deleteConnection k s) = zoom s \<and> pan (deleteConnection k s) = pan s"
  by (simp add: deleteConnection_def)

lemma view_fold_deleteConnection:
  "zoom (fold deleteConnection ks s) = zoom s \<and> pan (fold deleteConnection ks s) = pan s"
  by (simp add: fold_field [where f = deleteConnection] view_deleteConnection)

lemma view_deleteNode: "zoom (deleteNode k s) = zoom s \<and> pan (deleteNode k s) = pan s"
  by (simp add: deleteNode_def Let_def view_fold_deleteConnection)

lemma view_fold_deleteNode:
  "zoom (fold deleteNode ks s) = zoom s \<and> pan (fold deleteNode ks s) = pan s"
  by (simp add: fold_field [where f = deleteNode] view_deleteNode)

lemma view_fold_moveNode:
  "zoom (fold (\<lambda>k. moveNode k x y) ks s) = zoom s \<and>
   pan (fold (\<lambda>k. moveNode k x y) ks s) = pan s"
  by (simp add: fold_field [where f = "\<lambda>k. moveNode k x y"] view_moveNode)

lemma view_editOne: "zoom (editOne c tc sh k s) = zoom s \<and> pan (editOne c tc sh k s) = pan s"
  by (simp add: editOne_def Let_def split: option.split)

lemma view_fold_editOne:
  "zoom (fold (editOne c tc sh) ks s) = zoom s \<and> pan (fold (editOne c tc sh) ks s) = pan s"
  by (simp add: fold_field [where f = "editOne c tc sh"] view_editOne)

lemmas view_folds =
  view_fold_deleteConnection view_fold_deleteNode view_fold_moveNode view_fold_editOne

lemmas handler_defs =
  setTool_def clearTempConnection_def handleCanvasClick_def createNode_def clearSelection_def
  handleCanvasMouseMove_def updateTempConnection_def handleCanvasMouseDown_def
  handleCanvasMouseUp_def handleKeyDown_def deleteSelected_def handleNodeClick_def
  startConnection_def completeConnection_def createConnection_def selectNode_def
  toggleNodeSelection_def editNode_def editMultipleNodes_def handleConnectionClick_def
  selectConnection_def saveNodeEdit_def saveMultipleNodeEdit_def hideNodeModal_def
  clearAll_def saveMindMap_def loadMindMap_def deleteSavedFile_def createWelcomeNode_def
  newMap_def

lemma step_pan: "e \<noteq> ResetZoomButton \<Longrightarrow> pan (step e s) = pan s"
  by (cases e)
     (simp_all add: handler_defs zoomIn_def zoomOut_def handleCanvasWheel_def Let_def view_folds
        split: option.split list.split)

lemma step_zoom:
  "zoom (step e s) = zoom s \<or> e = ZoomInButton \<or> e = ZoomOutButton \<or> e = ResetZoomButton \<or>
   (\<exists>d. e = CanvasWheel d)"
  by (cases e)
     (simp_all add: handler_defs Let_def view_folds split: option.split list.split)

lemma step_zoom_range:
  assumes "1 / 10 \<le> zoom s" "zoom s \<le> 3"
  shows "1 / 10 \<le> zoom (step e s) \<and> zoom (step e s) \<le> 3"
proof -
  consider "e = ZoomInButton" | "e = ZoomOutButton" | "e = ResetZoomButton"
    | d where "e = CanvasWheel d" | "zoom (step e s) = zoom s"
    using step_zoom [of e s] by blast
  then show ?thesis
  proof cases
    case 1 with assms show ?thesis by (simp add: zoomIn_def min_def)
  next
    case 2 with assms show ?thesis by (simp add: zoomOut_def max_def)
  next
    case 3 then show ?thesis by (simp add: resetZoom_def)
  next
    case 4 then show ?thesis by (simp add: handleCanvasWheel_def Let_def max_def min_def)
  next
    case 5 with assms show ?thesis by simp
  qed
qed

text \<open>
  C6.  From the state the constructor leaves (zoom 1), after every finite sequence of
  events, among them the zoom-in, zoom-out and reset buttons and the wheel with any
  \<open>deltaY\<close>, the zoom factor lies between 0.1 and 3.0.
\<close>

theorem zoom_in_range:
  "0.1 \<le> zoom (run evs init_state) \<and> zoom (run evs init_state) \<le> 3.0"
proof -
  let ?I = "\<lambda>s. 1 / 10 \<le> zoom s \<and> zoom s \<le> 3"
  have "?I (fold step evs init_state)"
  proof (rule fold_invariant [where I = ?I])
    show "?I (step e s)" if "?I s" for e s
      using that step_zoom_range [of s e] by blast
    show "?I init_state"
      by (simp add: init_state_def)
  qed
  then show ?thesis
    by (simp add: run_def)
qed

text \<open>
  C9.  \<^verbatim>\<open>zoomIn\<close>, \<^verbatim>\<open>zoomOut\<close> and the wheel handler leave the pan offset as it is;
  \<^verbatim>\<open>resetZoom\<close> sets the zoom to 1 and the pan to \<open>(0, 0)\<close>; and no event other than the
  reset button changes the pan.
\<close>

theorem pan_frame:
  "pan (zoomIn s) = pan s \<and> pan (zoomOut s) = pan s \<and> pan (handleCanvasWheel deltaY s) = pan s \<and>
   zoom (resetZoom s) = 1 \<and> pan (resetZoom s) = (0, 0) \<and>
   (e \<noteq> ResetZoomButton \<longrightarrow> pan (step e s) = pan s)"
  by (simp add: zoomIn_def zoomOut_def handleCanvasWheel_def resetZoom_def Let_def step_pan)

theorem pan_frame_witness:
  "CanvasWheel 120 \<noteq> ResetZoomButton \<and>
   pan (step (CanvasWheel 120) (init_state\<lparr>pan := (3, 4)\<rparr>)) = (3, 4) \<and>
   pan (resetZoom (init_state\<lparr>pan := (3, 4)\<rparr>)) = (0, 0)"
  using pan_frame [of "init_state\<lparr>pan := (3, 4)\<rparr>" 120 "CanvasWheel 120"]
  by simp

section \<open>Node size\<close>

lemma nodeSize_formula:
  "nodeSize text shp =
     max 60 (of_nat (max_list (map length (split_space text)) * 8 + length (split_space text) * 4))
       * (if shp = Circle then 1.4 else 1)"
  by (simp add: nodeSize_def Let_def)

lemma nodeSize_bounds: "60 \<le> nodeSize str shp \<and> (shp = Circle \<longrightarrow> 84 \<le> nodeSize str shp)"
proof -
  define b :: rat where
    "b = max 60 (of_nat (max_list (map length (split_space str)) * 8 + length (split_space str) * 4))"
  have b: "60 \<le> b" by (simp add: b_def)
  then have "84 \<le> b * 1.4" by simp
  moreover have "nodeSize str shp = (if shp = Circle then b * 1.4 else b)"
    by (simp add: nodeSize_def Let_def b_def)
  ultimately show ?thesis using b by (cases shp) simp_all
qed

text \<open>
  C4, as the code has it.  The size of a node created with text \<open>str\<close> and shape \<open>shp\<close>
  depends on nothing else and equals \<open>max(60, longestWord*8 + wordCount*4)\<close>, times 1.4
  for a circle, where the words are the pieces of the text between single space
  characters (\<^verbatim>\<open>text.split(' ')\<close>): an empty piece before, after or between spaces counts
  as a word, and a tab or a line break does not separate words.  The size is at least 60,
  and at least 84 for a circle.
\<close>

theorem createNode_size:
  "\<exists>n. map_of (nodes (snd (createNode x y str c tc shp s))) (fst (createNode x y str c tc shp s)) = Some n \<and>
        node_text n = str \<and> node_shape n = shp \<and>
        node_size n =
          max 60 (of_nat (max_list (map length (split_space str)) * 8 + length (split_space str) * 4))
            * (if shp = Circle then 1.4 else 1) \<and>
        60 \<le> node_size n \<and> (shp = Circle \<longrightarrow> 84 \<le> node_size n)"
proof -
  let ?id = "fst (createNode x y str c tc shp s)"
  let ?n = "\<lparr>node_id = ?id, node_x = x, node_y = y, node_text = str, node_color = c,
             node_textColor = tc, node_shape = shp, node_size = nodeSize str shp,
             node_radius = nodeSize str shp\<rparr>"
  have stored: "map_of (nodes (snd (createNode x y str c tc shp s))) ?id = Some ?n"
    by (simp add: createNode_def Let_def map_of_update_same)
  have formula: "node_size ?n =
          max 60 (of_nat (max_list (map length (split_space str)) * 8 + length (split_space str) * 4))
            * (if shp = Circle then 1.4 else 1)"
    by (simp only: node.simps nodeSize_formula)
  have bounds: "60 \<le> node_size ?n \<and> (shp = Circle \<longrightarrow> 84 \<le> node_size ?n)"
    using nodeSize_bounds [of str shp] by simp
  have fields: "node_text ?n = str \<and> node_shape ?n = shp"
    by simp
  from stored formula bounds fields show ?thesis
    by blast
qed

theorem createNode_size_witness:
  "\<exists>n. map_of (nodes (snd (createNode 0 0 ''Hello wonderful World'' ''#4A90E2'' ''#FFFFFF'' Circle init_state))) ''node_1'' = Some n \<and>
        node_size n = 588 / 5 \<and> 84 \<le> node_size n"
proof -
  have id: "fst (createNode 0 0 ''Hello wonderful World'' ''#4A90E2'' ''#FFFFFF'' Circle init_state) = ''node_1''"
    by code_simp
  have sz: "max 60 (of_nat (max_list (map length (split_space ''Hello wonderful World'')) * 8 + length (split_space ''Hello wonderful World'') * 4))
            * (if Circle = Circle then 1.4 else 1) = (588 / 5 :: rat)"
    by code_simp
  from createNode_size [of 0 0 "''Hello wonderful World''" "''#4A90E2''" "''#FFFFFF''" Circle init_state]
  show ?thesis
    unfolding id sz by auto
qed

text \<open>
  The claim C4 itself, with the words of the text split on white space, fails: for
  \<open>aaaaaaaa<TAB>b\<close> the code computes 84 where the words \<open>aaaaaaaa\<close> and \<open>b\<close> give 72, and
  for \<open>aaaaaaaa\<close>, two spaces, \<open>b\<close> it computes 76 where the two words give 72.
\<close>

theorem createNode_size_counterexample:
  "fst (createNode 0 0 (''aaaaaaaa'' @ [CHR 0x09] @ ''b'') ''#4A90E2'' ''#FFFFFF'' Square init_state) = ''node_1'' \<and>
   map_option node_size
     (map_of (nodes (snd (createNode 0 0 (''aaaaaaaa'' @ [CHR 0x09] @ ''b'') ''#4A90E2'' ''#FFFFFF'' Square init_state))) ''node_1'') = Some 84 \<and>
   words_ws (''aaaaaaaa'' @ [CHR 0x09] @ ''b'') = [''aaaaaaaa'', ''b''] \<and>
   spec_nodeSize (''aaaaaaaa'' @ [CHR 0x09] @ ''b'') Square = 72 \<and>
   map_option node_size
     (map_of (nodes (snd (createNode 0 0 ''aaaaaaaa  b'' ''#4A90E2'' ''#FFFFFF'' Square init_state))) ''node_1'') = Some 76 \<and>
   words_ws ''aaaaaaaa  b'' = [''aaaaaaaa'', ''b''] \<and>
   spec_nodeSize ''aaaaaaaa  b'' Square = 72"
  by code_simp

section \<open>Batch edit\<close>

lemma editOne_lookup:
  "map_of (nodes (editOne c tc sh a s)) k =
     (if k = a then map_option (batch_edited c tc sh) (map_of (nodes s) a) else map_of (nodes s) k)"
  by (cases "map_of (nodes s) a"; cases sh)
     (simp_all add: editOne_def batch_edited_def Let_def AList.update_conv')

lemma batch_edited_idem:
  "batch_edited c tc sh (batch_edited c tc sh n) = batch_edited c tc sh n"
  by (cases sh) (simp_all add: batch_edited_def Let_def)

lemma fold_editOne_lookup:
  "map_of (nodes (fold (editOne c tc sh) ids s)) k =
     (if k \<in> set ids then map_option (batch_edited c tc sh) (map_of (nodes s) k)
      else map_of (nodes s) k)"
proof (induction ids arbitrary: s)
  case Nil
  then show ?case by simp
next
  case (Cons a ids)
  show ?case
    by (simp add: Cons.IH editOne_lookup option.map_comp comp_def batch_edited_idem)
qed

lemma editOne_keys: "map fst (nodes (editOne c tc sh a s)) = map fst (nodes s)"
  by (cases "map_of (nodes s) a") (simp_all add: editOne_def Let_def update_keys_present)

lemma fold_editOne_keys: "map fst (nodes (fold (editOne c tc sh) ids s)) = map fst (nodes s)"
  by (rule fold_field [where g = "\<lambda>s. map fst (nodes s)"]) (rule editOne_keys)

lemma editOne_frame: "editOne c tc sh a s = s\<lparr>nodes := nodes (editOne c tc sh a s)\<rparr>"
  by (cases "map_of (nodes s) a") (simp_all add: editOne_def Let_def)

lemma fold_editOne_frame:
  "fold (editOne c tc sh) ids s = s\<lparr>nodes := nodes (fold (editOne c tc sh) ids s)\<rparr>"
proof (induction ids arbitrary: s)
  case Nil
  then show ?case by simp
next
  case (Cons a ids)
  have "fold (editOne c tc sh) (a # ids) s = fold (editOne c tc sh) ids (editOne c tc sh a s)"
    by simp
  also have "\<dots> = (editOne c tc sh a s)\<lparr>nodes := nodes (fold (editOne c tc sh) ids (editOne c tc sh a s))\<rparr>"
    by (rule Cons.IH)
  also have "\<dots> = s\<lparr>nodes := nodes (fold (editOne c tc sh) ids (editOne c tc sh a s))\<rparr>"
    by (subst editOne_frame) simp
  finally show ?case by simp
qed

lemma saveNodeEdit_batch:
  "currentEditingNodes s = Some ids \<and> 1 < length ids \<longrightarrow>
     (\<forall>k. map_of (nodes (saveNodeEdit textValue c tc s)) k =
            (if k \<in> set ids
             then map_option (batch_edited c tc (selectedShape s)) (map_of (nodes s) k)
             else map_of (nodes s) k)) \<and>
     map fst (nodes (saveNodeEdit textValue c tc s)) = map fst (nodes s) \<and>
     saveNodeEdit textValue c tc s =
       s\<lparr>nodes := nodes (saveNodeEdit textValue c tc s),
         currentEditingNode := None, currentEditingNodes := None\<rparr> \<and>
     (\<forall>n. node_text (batch_edited c tc (selectedShape s) n) = node_text n \<and>
          node_color (batch_edited c tc (selectedShape s) n) = c \<and>
          node_textColor (batch_edited c tc (selectedShape s) n) = tc \<and>
          node_shape (batch_edited c tc (selectedShape s) n) =
            (case selectedShape s of Some shp \<Rightarrow> shp | None \<Rightarrow> node_shape n) \<and>
          node_size (batch_edited c tc (selectedShape s) n) =
            nodeSize (node_text n) (node_shape (batch_edited c tc (selectedShape s) n)) \<and>
          node_id (batch_edited c tc (selectedShape s) n) = node_id n \<and>
          node_x (batch_edited c tc (selectedShape s) n) = node_x n \<and>
          node_y (batch_edited c tc (selectedShape s) n) = node_y n)"
proof (intro impI, elim conjE)
  assume ids: "currentEditingNodes s = Some ids" and len: "1 < length ids"
  let ?s' = "fold (editOne c tc (selectedShape s)) ids s"
  have save: "saveNodeEdit textValue c tc s = hideNodeModal ?s'"
    using ids len by (simp add: saveNodeEdit_def saveMultipleNodeEdit_def)
  have nodes': "nodes (saveNodeEdit textValue c tc s) = nodes ?s'"
    by (simp add: save hideNodeModal_def)
  have frame: "saveNodeEdit textValue c tc s =
       s\<lparr>nodes := nodes (saveNodeEdit textValue c tc s),
         currentEditingNode := None, currentEditingNodes := None\<rparr>"
    unfolding nodes' save hideNodeModal_def
    by (subst fold_editOne_frame) simp
  have lookup: "\<forall>k. map_of (nodes (saveNodeEdit textValue c tc s)) k =
            (if k \<in> set ids
             then map_option (batch_edited c tc (selectedShape s)) (map_of (nodes s) k)
             else map_of (nodes s) k)"
    by (simp only: nodes' fold_editOne_lookup) simp
  have keys: "map fst (nodes (saveNodeEdit textValue c tc s)) = map fst (nodes s)"
    by (simp only: nodes' fold_editOne_keys)
  have fields: "node_text (batch_edited c tc sh n) = node_text n \<and>
          node_color (batch_edited c tc sh n) = c \<and>
          node_textColor (batch_edited c tc sh n) = tc \<and>
          node_shape (batch_edited c tc sh n) = (case sh of Some shp \<Rightarrow> shp | None \<Rightarrow> node_shape n) \<and>
          node_size (batch_edited c tc sh n) = nodeSize (node_text n) (node_shape (batch_edited c tc sh n)) \<and>
          node_id (batch_edited c tc sh n) = node_id n \<and>
          node_x (batch_edited c tc sh n) = node_x n \<and>
          node_y (batch_edited c tc sh n) = node_y n" for sh n
    by (cases sh) (simp_all add: batch_edited_def Let_def)
  show "(\<forall>k. map_of (nodes (saveNodeEdit textValue c tc s)) k =
            (if k \<in> set ids
             then map_option (batch_edited c tc (selectedShape s)) (map_of (nodes s) k)
             else map_of (nodes s) k)) \<and>
     map fst (nodes (saveNodeEdit textValue c tc s)) = map fst (nodes s) \<and>
     saveNodeEdit textValue c tc s =
       s\<lparr>nodes := nodes (saveNodeEdit textValue c tc s),
         currentEditingNode := None, currentEditingNodes := None\<rparr> \<and>
     (\<forall>n. node_text (batch_edited c tc (selectedShape s) n) = node_text n \<and>
          node_color (batch_edited c tc (selectedShape s) n) = c \<and>
          node_textColor (batch_edited c tc (selectedShape s) n) = tc \<and>
          node_shape (batch_edited c tc (selectedShape s) n) =
            (case selectedShape s of Some shp \<Rightarrow> shp | None \<Rightarrow> node_shape n) \<and>
          node_size (batch_edited c tc (selectedShape s) n) =
            nodeSize (node_text n) (node_shape (batch_edited c tc (selectedShape s) n)) \<and>
          node_id (batch_edited c tc (selectedShape s) n) = node_id n \<and>
          node_x (batch_edited c tc (selectedShape s) n) = node_x n \<and>
          node_y (batch_edited c tc (selectedShape s) n) = node_y n)"
    using lookup keys frame fields by blast
qed

text \<open>
  C8.  A double click while two or more nodes are selected opens the edit dialog for
  exactly the selected nodes.  When the dialog is open for two or more nodes, saving
  applies to every one of them that is in the node map the fill colour and the text
  colour of the dialog and the chosen shape; the text, the id and the position of the node
  stay; the size is computed from the node's own text and its new shape.  Nodes that are
  not being edited, the order of the node map and every field of the state but the node
  map and the two dialog fields are unchanged.
\<close>

theorem batch_edit:
  "(1 < length (selectedNodes before) \<longrightarrow>
      currentEditingNodes (editNode nodeId before) = Some (selectedNodes before)) \<and>
   (currentEditingNodes s = Some ids \<and> 1 < length ids \<longrightarrow>
     (\<forall>k. map_of (nodes (saveNodeEdit textValue c tc s)) k =
            (if k \<in> set ids
             then map_option (batch_edited c tc (selectedShape s)) (map_of (nodes s) k)
             else map_of (nodes s) k)) \<and>
     map fst (nodes (saveNodeEdit textValue c tc s)) = map fst (nodes s) \<and>
     saveNodeEdit textValue c tc s =
       s\<lparr>nodes := nodes (saveNodeEdit textValue c tc s),
         currentEditingNode := None, currentEditingNodes := None\<rparr> \<and>
     (\<forall>n. node_text (batch_edited c tc (selectedShape s) n) = node_text n \<and>
          node_color (batch_edited c tc (selectedShape s) n) = c \<and>
          node_textColor (batch_edited c tc (selectedShape s) n) = tc \<and>
          node_shape (batch_edited c tc (selectedShape s) n) =
            (case selectedShape s of Some shp \<Rightarrow> shp | None \<Rightarrow> node_shape n) \<and>
          node_size (batch_edited c tc (selectedShape s) n) =
            nodeSize (node_text n) (node_shape (batch_edited c tc (selectedShape s) n)) \<and>
          node_id (batch_edited c tc (selectedShape s) n) = node_id n \<and>
          node_x (batch_edited c tc (selectedShape s) n) = node_x n \<and>
          node_y (batch_edited c tc (selectedShape s) n) = node_y n))"
proof (rule conjI)
  show "1 < length (selectedNodes before) \<longrightarrow>
      currentEditingNodes (editNode nodeId before) = Some (selectedNodes before)"
    by (simp add: editNode_def editMultipleNodes_def Let_def split: list.split option.split)
qed (rule saveNodeEdit_batch)

theorem batch_edit_witness:
  "1 < length (selectedNodes example_selected) \<and>
   currentEditingNodes (editNode ''node_1'' example_selected) = Some [''node_1'', ''node_2''] \<and>
   currentEditingNodes example_batch = Some [''node_1'', ''node_2''] \<and>
   1 < length [''node_1'', ''node_2''] \<and>
   map_of (nodes (saveNodeEdit ''ignored'' ''#FF0000'' ''#000000'' example_batch)) ''node_1'' =
     Some \<lparr>node_id = ''node_1'', node_x = 400, node_y = 300, node_text = ''Welcome to MindMap!'',
           node_color = ''#FF0000'', node_textColor = ''#000000'', node_shape = Square,
           node_size = 76, node_radius = 76\<rparr> \<and>
   map_of (nodes (saveNodeEdit ''ignored'' ''#FF0000'' ''#000000'' example_batch)) ''node_2'' =
     Some \<lparr>node_id = ''node_2'', node_x = 10, node_y = 10, node_text = ''New Node'',
           node_color = ''#FF0000'', node_textColor = ''#000000'', node_shape = Square,
           node_size = 60, node_radius = 60\<rparr> \<and>
   map_of (nodes (saveNodeEdit ''ignored'' ''#FF0000'' ''#000000'' example_batch)) ''node_3'' =
     map_of (nodes example_batch) ''node_3''"
proof -
  have selected: "1 < length (selectedNodes example_selected)"
    and selection: "selectedNodes example_selected = [''node_1'', ''node_2'']"
    by code_simp+
  have editing: "currentEditingNodes example_batch = Some [''node_1'', ''node_2'']"
    by code_simp
  have shape: "selectedShape example_batch = Some Square"
    by code_simp
  have n1: "map_option (batch_edited ''#FF0000'' ''#000000'' (Some Square))
              (map_of (nodes example_batch) ''node_1'') =
     Some \<lparr>node_id = ''node_1'', node_x = 400, node_y = 300, node_text = ''Welcome to MindMap!'',
           node_color = ''#FF0000'', node_textColor = ''#000000'', node_shape = Square,
           node_size = 76, node_radius = 76\<rparr>"
    by code_simp
  have n2: "map_option (batch_edited ''#FF0000'' ''#000000'' (Some Square))
              (map_of (nodes example_batch) ''node_2'') =
     Some \<lparr>node_id = ''node_2'', node_x = 10, node_y = 10, node_text = ''New Node'',
           node_color = ''#FF0000'', node_textColor = ''#000000'', node_shape = Square,
           node_size = 60, node_radius = 60\<rparr>"
    by code_simp
  note inst = batch_edit [where before = example_selected and nodeId = "''node_1''"
      and s = example_batch and ids = "[''node_1'', ''node_2'']" and textValue = "''ignored''"
      and c = "''#FF0000''" and tc = "''#000000''"]
  from inst selected have opened:
    "currentEditingNodes (editNode ''node_1'' example_selected) = Some [''node_1'', ''node_2'']"
    by (simp add: selection)
  from inst editing
  have "\<forall>k. map_of (nodes (saveNodeEdit ''ignored'' ''#FF0000'' ''#000000'' example_batch)) k =
            (if k \<in> set [''node_1'', ''node_2'']
             then map_option (batch_edited ''#FF0000'' ''#000000'' (selectedShape example_batch))
                    (map_of (nodes example_batch) k)
             else map_of (nodes example_batch) k)"
    by simp
  then show ?thesis
    using selected opened editing n1 n2 by (simp add: shape)
qed

section \<open>Wrapping text\<close>

lemma split_space_nonempty: "split_space cs \<noteq> []"
  by (induction cs) (simp_all split: list.split)

lemma split_space_append:
  "split_space (a @ CHR '' '' # b) = split_space a @ split_space b"
proof (induction a)
  case Nil
  then show ?case by simp
next
  case (Cons c a)
  obtain w ws where ws: "split_space a = w # ws"
    using split_space_nonempty [of a] by (cases "split_space a") auto
  with Cons.IH show ?case by simp
qed

lemma join_space_Cons: "ls \<noteq> [] \<Longrightarrow> join_space (l # ls) = l @ '' '' @ join_space ls"
  by (cases ls) simp_all

lemma join_space_char: "join_space ((c # w) # ws) = c # join_space (w # ws)"
  by (cases ws) simp_all

lemma join_split_space: "join_space (split_space cs) = cs"
proof (induction cs)
  case Nil
  then show ?case by simp
next
  case (Cons c cs)
  show ?case
  proof (cases "c = CHR '' ''")
    case True
    then show ?thesis
      using Cons.IH by (simp add: join_space_Cons split_space_nonempty)
  next
    case False
    obtain w ws where ws: "split_space cs = w # ws"
      using split_space_nonempty [of cs] by (cases "split_space cs") auto
    with False Cons.IH show ?thesis
      by (simp add: join_space_char)
  qed
qed

text \<open>
  A function \<open>W\<close> from texts to lists that takes a space to the border between two lists:
  the words of a text, its pieces that are not empty, its characters other than spaces.
\<close>

lemma join_space_hom:
  assumes "W [] = []" and "\<And>a b. W (a @ CHR '' '' # b) = W a @ W b"
  shows "W (join_space ls) = concat (map W ls)"
proof (induction ls rule: join_space.induct)
  case 1
  then show ?case by (simp add: assms(1))
next
  case (2 l)
  then show ?case by simp
next
  case (3 l v va)
  have "W (join_space (l # v # va)) = W (l @ CHR '' '' # join_space (v # va))"
    by simp
  also have "\<dots> = W l @ W (join_space (v # va))"
    by (rule assms(2))
  finally show ?case
    using "3.IH" by simp
qed

lemma wrapLoop_hom:
  assumes "W [] = []" and "\<And>a b. W (a @ CHR '' '' # b) = W a @ W b"
  shows "wrapLoop m ws (lines, cur) = (lines', cur') \<Longrightarrow>
   concat (map W lines') @ W cur' = concat (map W lines) @ W cur @ concat (map W ws)"
proof (induction ws arbitrary: lines cur)
  case Nil
  then show ?case by simp
next
  case (Cons word ws)
  show ?case
  proof (cases "cur = []")
    case True
    show ?thesis
    proof (cases "int (length word) \<le> m")
      case le: True
      with True Cons.prems have "wrapLoop m ws (lines, word) = (lines', cur')" by simp
      from Cons.IH [OF this] True show ?thesis by (simp add: assms(1))
    next
      case gt: False
      with True Cons.prems have "wrapLoop m ws (lines @ [word], []) = (lines', cur')" by simp
      from Cons.IH [OF this] True show ?thesis by (simp add: assms(1))
    qed
  next
    case False
    show ?thesis
    proof (cases "int (length (cur @ '' '' @ word)) \<le> m")
      case le: True
      with False Cons.prems have "wrapLoop m ws (lines, cur @ '' '' @ word) = (lines', cur')"
        by simp
      from Cons.IH [OF this] show ?thesis by (simp add: assms(2))
    next
      case gt: False
      with False Cons.prems have "wrapLoop m ws (lines @ [cur], word) = (lines', cur')" by simp
      from Cons.IH [OF this] show ?thesis by simp
    qed
  qed
qed

lemma renderWrappedText_hom:
  assumes "W [] = []" and "\<And>a b. W (a @ CHR '' '' # b) = W a @ W b"
  shows "concat (map W (renderWrappedText m str)) = W str"
proof -
  obtain lines' cur' where loop: "wrapLoop m (split_space str) ([], []) = (lines', cur')"
    by (cases "wrapLoop m (split_space str) ([], [])") auto
  from wrapLoop_hom [of W, OF assms loop]
  have "concat (map W lines') @ W cur' = concat (map W (split_space str))"
    by (simp add: assms(1))
  also have "\<dots> = W (join_space (split_space str))"
    by (simp add: join_space_hom [of W, OF assms])
  also have "\<dots> = W str"
    by (simp add: join_split_space)
  finally show ?thesis
    by (cases "cur' = []") (simp_all add: renderWrappedText_def loop assms(1))
qed

lemma nonempty_pieces_Nil: "nonempty_pieces [] = []"
  by (simp add: nonempty_pieces_def)

lemma nonempty_pieces_space:
  "nonempty_pieces (a @ CHR '' '' # b) = nonempty_pieces a @ nonempty_pieces b"
  by (simp add: nonempty_pieces_def split_space_append)

lemma renderWrappedText_pieces:
  "nonempty_pieces (join_space (renderWrappedText m str)) = nonempty_pieces str"
proof -
  have "nonempty_pieces (join_space (renderWrappedText m str)) =
        concat (map nonempty_pieces (renderWrappedText m str))"
    by (rule join_space_hom) (simp_all add: nonempty_pieces_Nil nonempty_pieces_space)
  also have "\<dots> = nonempty_pieces str"
    by (rule renderWrappedText_hom) (simp_all add: nonempty_pieces_Nil nonempty_pieces_space)
  finally show ?thesis .
qed

lemma renderWrappedText_chars:
  "no_space (concat (renderWrappedText m str)) = no_space str"
proof -
  have "concat (map no_space (renderWrappedText m str)) = no_space str"
    by (rule renderWrappedText_hom) simp_all
  then show ?thesis
    by (simp add: filter_concat)
qed

lemma words_of_append_ws:
  "is_whitespace c \<Longrightarrow> words_of w (xs @ c # ys) = words_of w xs @ words_of [] ys"
  by (induction xs arbitrary: w) simp_all

lemma space_is_whitespace: "is_whitespace (CHR '' '')"
  by (simp add: is_whitespace_def)

lemma words_ws_space: "words_ws (a @ CHR '' '' # b) = words_ws a @ words_ws b"
  using words_of_append_ws [OF space_is_whitespace, of "[]" a b]
  by (simp add: words_ws_def)

lemma words_ws_Nil: "words_ws [] = []"
  by (simp add: words_ws_def)

lemma renderWrappedText_words:
  "words_ws (join_space (renderWrappedText m str)) = words_ws str"
proof -
  have "words_ws (join_space (renderWrappedText m str)) =
        concat (map words_ws (renderWrappedText m str))"
    by (rule join_space_hom) (simp_all add: words_ws_Nil words_ws_space)
  also have "\<dots> = words_ws str"
    by (rule renderWrappedText_hom) (simp_all add: words_ws_Nil words_ws_space)
  finally show ?thesis .
qed

lemma wrapLoop_long:
  "wrapLoop m ws (lines, cur) = (lines', cur') \<Longrightarrow>
   set lines \<subseteq> set lines' \<and>
   (cur \<noteq> [] \<and> m < int (length cur) \<longrightarrow> cur \<in> set lines' \<or> cur' = cur) \<and>
   (\<forall>w \<in> set ws. w \<noteq> [] \<and> m < int (length w) \<longrightarrow> w \<in> set lines' \<or> cur' = w)"
proof (induction ws arbitrary: lines cur)
  case Nil
  then show ?case by simp
next
  case (Cons word ws)
  show ?case
  proof (cases "cur = []")
    case True
    show ?thesis
    proof (cases "int (length word) \<le> m")
      case le: True
      with True Cons.prems have "wrapLoop m ws (lines, word) = (lines', cur')" by simp
      from Cons.IH [OF this] True le show ?thesis by auto
    next
      case gt: False
      with True Cons.prems have "wrapLoop m ws (lines @ [word], []) = (lines', cur')" by simp
      from Cons.IH [OF this] True show ?thesis by auto
    qed
  next
    case False
    show ?thesis
    proof (cases "int (length (cur @ '' '' @ word)) \<le> m")
      case le: True
      with False Cons.prems have "wrapLoop m ws (lines, cur @ '' '' @ word) = (lines', cur')"
        by simp
      from Cons.IH [OF this] le show ?thesis by auto
    next
      case gt: False
      with False Cons.prems have "wrapLoop m ws (lines @ [cur], word) = (lines', cur')" by simp
      from Cons.IH [OF this] show ?thesis by auto
    qed
  qed
qed

lemma renderWrappedText_long:
  assumes "w \<in> set (nonempty_pieces str)" "m < int (length w)"
  shows "w \<in> set (renderWrappedText m str)"
proof -
  from assms(1) have piece: "w \<in> set (split_space str)" and ne: "w \<noteq> []"
    by (simp_all add: nonempty_pieces_def)
  obtain lines' cur' where loop: "wrapLoop m (split_space str) ([], []) = (lines', cur')"
    by (cases "wrapLoop m (split_space str) ([], [])") auto
  from wrapLoop_long [OF loop] piece ne assms(2) have "w \<in> set lines' \<or> cur' = w"
    by blast
  with ne show ?thesis
    by (auto simp: renderWrappedText_def loop)
qed

lemma join_space_Cons_if:
  "join_space (l # ls) = (if ls = [] then l else l @ CHR '' '' # join_space ls)"
  by (cases ls) simp_all

lemma join_space_merge:
  "join_space (A @ (x @ CHR '' '' # y) # B) = join_space (A @ x # y # B)"
  by (induction A) (simp_all add: join_space_Cons_if)

lemma join_space_drop_empty:
  "subseq (join_space (A @ B)) (join_space (A @ [] # B))"
proof (induction A)
  case Nil
  have "subseq (join_space B) (CHR '' '' # join_space B)"
    by (rule subseq_Cons' [OF subseq_order.order_refl])
  then show ?case by (simp add: join_space_Cons_if)
next
  case (Cons a A)
  show ?case
  proof (cases "A @ B = []")
    case True
    have "subseq a (a @ '' '')"
      by (rule subseq_rev_drop_many [OF subseq_order.order_refl])
    with True show ?thesis by (simp add: join_space_Cons_if)
  next
    case False
    with Cons.IH show ?thesis
      by (auto simp: join_space_Cons_if subseq_append')
  qed
qed

lemma wrapLoop_subseq:
  "wrapLoop m ws (lines, cur) = (lines', cur') \<Longrightarrow>
   subseq (join_space (if cur' \<noteq> [] then lines' @ [cur'] else lines'))
     (join_space ((if cur \<noteq> [] then lines @ [cur] else lines) @ ws))"
proof (induction ws arbitrary: lines cur)
  case Nil
  then show ?case by simp
next
  case (Cons word ws)
  let ?final = "join_space (if cur' \<noteq> [] then lines' @ [cur'] else lines')"
  show ?case
  proof (cases "cur = []")
    case True
    show ?thesis
    proof (cases "int (length word) \<le> m")
      case le: True
      with True Cons.prems have "wrapLoop m ws (lines, word) = (lines', cur')" by simp
      from Cons.IH [OF this]
      have 1: "subseq ?final (join_space ((if word \<noteq> [] then lines @ [word] else lines) @ ws))" .
      have 2: "subseq (join_space ((if word \<noteq> [] then lines @ [word] else lines) @ ws))
                 (join_space (lines @ word # ws))"
        using join_space_drop_empty [of lines ws] by (cases "word = []") simp_all
      from 1 2 True show ?thesis
        using subseq_order.order_trans by force
    next
      case gt: False
      with True Cons.prems have "wrapLoop m ws (lines @ [word], []) = (lines', cur')" by simp
      from Cons.IH [OF this] True show ?thesis by simp
    qed
  next
    case False
    show ?thesis
    proof (cases "int (length (cur @ '' '' @ word)) \<le> m")
      case le: True
      with False Cons.prems have "wrapLoop m ws (lines, cur @ '' '' @ word) = (lines', cur')"
        by simp
      from Cons.IH [OF this] False show ?thesis
        by (simp add: join_space_merge)
    next
      case gt: False
      with False Cons.prems have "wrapLoop m ws (lines @ [cur], word) = (lines', cur')" by simp
      from Cons.IH [OF this]
      have 1: "subseq ?final
                 (join_space ((if word \<noteq> [] then (lines @ [cur]) @ [word] else lines @ [cur]) @ ws))" .
      have 2: "subseq (join_space ((if word \<noteq> [] then (lines @ [cur]) @ [word] else lines @ [cur]) @ ws))
                 (join_space ((lines @ [cur]) @ word # ws))"
        using join_space_drop_empty [of "lines @ [cur]" ws] by (cases "word = []") simp_all
      from 1 2 False show ?thesis
        using subseq_order.order_trans by force
    qed
  qed
qed

lemma renderWrappedText_subseq: "subseq (join_space (renderWrappedText m str)) str"
proof -
  obtain lines' cur' where loop: "wrapLoop m (split_space str) ([], []) = (lines', cur')"
    by (cases "wrapLoop m (split_space str) ([], [])") auto
  from wrapLoop_subseq [OF loop] show ?thesis
    by (simp add: renderWrappedText_def loop join_split_space)
qed

lemma no_space_join: "no_space (join_space ls) = no_space (concat ls)"
  by (induction ls rule: join_space.induct) simp_all

text \<open>
  C5, as the code has it.  For every text and every limit of characters per line, and so
  for every size and shape, the lines of \<^verbatim>\<open>renderWrappedText\<close> joined with single spaces
  are the text with some of its space characters left out: no other character is dropped,
  none is added, and the order is kept.  So the joined lines have the words of the text as
  the code splits them, the pieces between single spaces that are not empty, in order;
  and every such piece longer than the limit is a line of its own, whole.
\<close>

theorem renderWrappedText_keeps_pieces:
  "nonempty_pieces (join_space (renderWrappedText maxCharsPerLine str)) = nonempty_pieces str \<and>
   (\<forall>w \<in> set (nonempty_pieces str).
      maxCharsPerLine < int (length w) \<longrightarrow> w \<in> set (renderWrappedText maxCharsPerLine str)) \<and>
   subseq (join_space (renderWrappedText maxCharsPerLine str)) str \<and>
   no_space (join_space (renderWrappedText maxCharsPerLine str)) = no_space str"
  by (simp add: renderWrappedText_pieces renderWrappedText_long renderWrappedText_chars
      renderWrappedText_subseq no_space_join)

theorem renderWrappedText_keeps_pieces_witness:
  "''Incomprehensibilities'' \<in> set (nonempty_pieces ''Incomprehensibilities are  hard to wrap'') \<and>
   (7 :: int) < int (length ''Incomprehensibilities'') \<and>
   ''Incomprehensibilities'' \<in> set (renderWrappedText 7 ''Incomprehensibilities are  hard to wrap'') \<and>
   nonempty_pieces (join_space (renderWrappedText 7 ''Incomprehensibilities are  hard to wrap'')) =
     [''Incomprehensibilities'', ''are'', ''hard'', ''to'', ''wrap'']"
proof -
  have piece: "''Incomprehensibilities'' \<in> set (nonempty_pieces ''Incomprehensibilities are  hard to wrap'')"
    by code_simp
  have long: "(7 :: int) < int (length ''Incomprehensibilities'')"
    by simp
  have ps: "nonempty_pieces ''Incomprehensibilities are  hard to wrap'' =
     [''Incomprehensibilities'', ''are'', ''hard'', ''to'', ''wrap'']"
    by code_simp
  from renderWrappedText_keeps_pieces [of 7 "''Incomprehensibilities are  hard to wrap''"]
    piece long
  have "''Incomprehensibilities'' \<in> set (renderWrappedText 7 ''Incomprehensibilities are  hard to wrap'')"
    and "nonempty_pieces (join_space (renderWrappedText 7 ''Incomprehensibilities are  hard to wrap'')) =
     nonempty_pieces ''Incomprehensibilities are  hard to wrap''"
    by blast+
  with piece long ps show ?thesis by simp
qed

text \<open>
  The claim C5 itself fails, whichever way its words are read.  With the limit 7 (size 84,
  circle):
  \<^item> the text \<open>" ab"\<close> gives the one line \<open>"ab"\<close>: the leading space is dropped;
  \<^item> with the words as the code splits them, empty pieces included, the text
    \<open>"abcdefgh  i"\<close> (two spaces) has the pieces \<open>abcdefgh\<close>, the empty piece and \<open>i\<close>, and
    the joined lines have \<open>abcdefgh\<close> and \<open>i\<close> only;
  \<^item> with the words split on white space, \<open>aaaaaaaaaaaa<TAB>b\<close> has the word
    \<open>aaaaaaaaaaaa\<close>, longer than the limit, and the only line is the whole text: the
    word is not a line of its own.
\<close>

theorem renderWrappedText_counterexample:
  "renderWrappedText 7 '' ab'' = [''ab''] \<and>
   join_space (renderWrappedText 7 '' ab'') \<noteq> '' ab'' \<and>
   split_space ''abcdefgh  i'' = [''abcdefgh'', [], ''i''] \<and>
   renderWrappedText 7 ''abcdefgh  i'' = [''abcdefgh'', ''i''] \<and>
   split_space (join_space (renderWrappedText 7 ''abcdefgh  i'')) = [''abcdefgh'', ''i''] \<and>
   words_ws (''aaaaaaaaaaaa'' @ [CHR 0x09] @ ''b'') = [''aaaaaaaaaaaa'', ''b''] \<and>
   (7 :: int) < int (length ''aaaaaaaaaaaa'') \<and>
   renderWrappedText 7 (''aaaaaaaaaaaa'' @ [CHR 0x09] @ ''b'') = [''aaaaaaaaaaaa'' @ [CHR 0x09] @ ''b''] \<and>
   ''aaaaaaaaaaaa'' \<notin> set (renderWrappedText 7 (''aaaaaaaaaaaa'' @ [CHR 0x09] @ ''b''))"
  by code_simp


section \<open>Deleting a node\<close>

lemma fold_deleteConnection_eq:
  "fold deleteConnection ks s =
     s\<lparr>connections := filter (\<lambda>(k, c). k \<notin> set ks) (connections s)\<rparr>"
proof (induction ks arbitrary: s)
  case Nil
  then show ?case by simp
next
  case (Cons a ks)
  have "filter (\<lambda>(k, c). k \<notin> set ks) (AList.delete a (connections s)) =
        filter (\<lambda>(k, c). k \<notin> set (a # ks)) (connections s)"
    by (auto simp: AList.delete_eq intro: filter_cong)
  then have "(deleteConnection a s)\<lparr>connections :=
            filter (\<lambda>(k, c). k \<notin> set ks) (connections (deleteConnection a s))\<rparr> =
        s\<lparr>connections := filter (\<lambda>(k, c). k \<notin> set (a # ks)) (connections s)\<rparr>"
    by (simp add: deleteConnection_def)
  moreover have "fold deleteConnection (a # ks) s =
        (deleteConnection a s)\<lparr>connections :=
            filter (\<lambda>(k, c). k \<notin> set ks) (connections (deleteConnection a s))\<rparr>"
    using Cons.IH [of "deleteConnection a s"] by simp
  ultimately show ?case by simp
qed

lemma deleteNode_eq:
  "deleteNode nodeId s =
     s\<lparr>connections :=
         filter (\<lambda>(k, c). k \<notin> fst ` {(k, c) \<in> set (connections s). conn_start c = nodeId \<or> conn_end c = nodeId})
           (connections s),
       nodes := AList.delete nodeId (nodes s)\<rparr>"
proof -
  have "set (map fst (filter (\<lambda>(connectionId, c). conn_start c = nodeId \<or> conn_end c = nodeId) (connections s)))
        = fst ` {(k, c) \<in> set (connections s). conn_start c = nodeId \<or> conn_end c = nodeId}"
    by auto
  then show ?thesis
    by (simp add: deleteNode_def Let_def fold_deleteConnection_eq)
qed

lemma deleteNode_connections_subset:
  "set (connections (deleteNode nodeId s)) \<subseteq> set (connections s)"
  by (simp add: deleteNode_eq)

lemma deleteNode_no_reference:
  "(k, c) \<in> set (connections (deleteNode nodeId s)) \<Longrightarrow>
   conn_start c \<noteq> nodeId \<and> conn_end c \<noteq> nodeId"
  by (force simp: deleteNode_eq)

lemma deleteNode_nodes:
  "map_of (nodes (deleteNode nodeId s)) k = (if k = nodeId then None else map_of (nodes s) k)"
  by (simp add: deleteNode_eq AList.delete_conv)

lemma deleteNode_endpoints:
  assumes "endpoints_exist s"
  shows "endpoints_exist (deleteNode nodeId s)"
  unfolding endpoints_exist_def
proof (intro ballI, clarify)
  fix k c assume kc: "(k, c) \<in> set (connections (deleteNode nodeId s))"
  then have "(k, c) \<in> set (connections s)"
    using deleteNode_connections_subset by blast
  with assms have "map_of (nodes s) (conn_start c) \<noteq> None" "map_of (nodes s) (conn_end c) \<noteq> None"
    unfolding endpoints_exist_def by auto
  with deleteNode_no_reference [OF kc]
  show "map_of (nodes (deleteNode nodeId s)) (conn_start c) \<noteq> None \<and>
        map_of (nodes (deleteNode nodeId s)) (conn_end c) \<noteq> None"
    by (simp add: deleteNode_nodes)
qed

lemma deleteNode_keeps_others:
  assumes "distinct (map fst (connections s))"
  shows "connections (deleteNode nodeId s) =
           filter (\<lambda>(k, c). conn_start c \<noteq> nodeId \<and> conn_end c \<noteq> nodeId) (connections s)"
proof -
  have "k \<notin> fst ` {(k, c) \<in> set (connections s). conn_start c = nodeId \<or> conn_end c = nodeId}
        \<longleftrightarrow> conn_start c \<noteq> nodeId \<and> conn_end c \<noteq> nodeId"
    if "(k, c) \<in> set (connections s)" for k c
  proof
    assume "k \<notin> fst ` {(k, c) \<in> set (connections s). conn_start c = nodeId \<or> conn_end c = nodeId}"
    with that show "conn_start c \<noteq> nodeId \<and> conn_end c \<noteq> nodeId" by force
  next
    assume ok: "conn_start c \<noteq> nodeId \<and> conn_end c \<noteq> nodeId"
    show "k \<notin> fst ` {(k, c) \<in> set (connections s). conn_start c = nodeId \<or> conn_end c = nodeId}"
    proof
      assume "k \<in> fst ` {(k, c) \<in> set (connections s). conn_start c = nodeId \<or> conn_end c = nodeId}"
      then obtain c' where c': "(k, c') \<in> set (connections s)"
        and touch: "conn_start c' = nodeId \<or> conn_end c' = nodeId" by auto
      from assms that c' have "c' = c"
        by (meson eq_key_imp_eq_value)
      with touch ok show False by simp
    qed
  qed
  then show ?thesis
    by (auto simp: deleteNode_eq intro: filter_cong)
qed

text \<open>
  C2, as the code has it.  For every state and every node id, \<^verbatim>\<open>deleteNode(id)\<close> removes
  the connections that start or end at the node and then the node: afterwards no
  connection refers to that id, the id is not in the node map, the other nodes are
  untouched, the connections that do not touch the node stay (the keys of a map being
  distinct), and if the endpoints of every connection existed before the call they exist
  after it.
\<close>

theorem deleteNode_cascade:
  "(\<forall>(k, c) \<in> set (connections (deleteNode nodeId s)).
      conn_start c \<noteq> nodeId \<and> conn_end c \<noteq> nodeId) \<and>
   map_of (nodes (deleteNode nodeId s)) nodeId = None \<and>
   (\<forall>k. k \<noteq> nodeId \<longrightarrow> map_of (nodes (deleteNode nodeId s)) k = map_of (nodes s) k) \<and>
   (distinct (map fst (connections s)) \<longrightarrow>
      connections (deleteNode nodeId s) =
        filter (\<lambda>(k, c). conn_start c \<noteq> nodeId \<and> conn_end c \<noteq> nodeId) (connections s)) \<and>
   (endpoints_exist s \<longrightarrow> endpoints_exist (deleteNode nodeId s))"
proof (intro conjI)
  show "\<forall>(k, c) \<in> set (connections (deleteNode nodeId s)).
      conn_start c \<noteq> nodeId \<and> conn_end c \<noteq> nodeId"
    using deleteNode_no_reference by blast
  show "map_of (nodes (deleteNode nodeId s)) nodeId = None"
    by (simp add: deleteNode_nodes)
  show "\<forall>k. k \<noteq> nodeId \<longrightarrow> map_of (nodes (deleteNode nodeId s)) k = map_of (nodes s) k"
    by (simp add: deleteNode_nodes)
  show "distinct (map fst (connections s)) \<longrightarrow>
      connections (deleteNode nodeId s) =
        filter (\<lambda>(k, c). conn_start c \<noteq> nodeId \<and> conn_end c \<noteq> nodeId) (connections s)"
    using deleteNode_keeps_others by blast
  show "endpoints_exist s \<longrightarrow> endpoints_exist (deleteNode nodeId s)"
    using deleteNode_endpoints by blast
qed

theorem deleteNode_cascade_witness:
  "endpoints_exist example_connected \<and> distinct (map fst (connections example_connected)) \<and>
   endpoints_exist (deleteNode ''node_1'' example_connected) \<and>
   connections (deleteNode ''node_1'' example_connected) =
     [(''connection_2'',
       \<lparr>conn_id = ''connection_2'', conn_start = ''node_2'', conn_end = ''node_3''\<rparr>)]"
proof -
  have before: "endpoints_exist example_connected"
    by code_simp
  have keys: "distinct (map fst (connections example_connected))"
    by code_simp
  have rest: "filter (\<lambda>(k, c). conn_start c \<noteq> ''node_1'' \<and> conn_end c \<noteq> ''node_1'')
                (connections example_connected) =
     [(''connection_2'',
       \<lparr>conn_id = ''connection_2'', conn_start = ''node_2'', conn_end = ''node_3''\<rparr>)]"
    by code_simp
  from deleteNode_cascade [of "''node_1''" example_connected] before keys
  have "endpoints_exist (deleteNode ''node_1'' example_connected)"
    and "connections (deleteNode ''node_1'' example_connected) =
      filter (\<lambda>(k, c). conn_start c \<noteq> ''node_1'' \<and> conn_end c \<noteq> ''node_1'')
        (connections example_connected)"
    by blast+
  with before keys rest show ?thesis by simp
qed

text \<open>
  The claim C2 itself fails.  In \<open>example_dangling\<close>, reached by clicks and the Delete key,
  \<open>connection_1\<close> starts at the deleted \<open>node_1\<close>; deleting \<open>node_3\<close> leaves that connection in
  the map, so after \<^verbatim>\<open>deleteNode\<close> a connection refers to a node that is not in the node
  map.
\<close>

theorem deleteNode_dangling_counterexample:
  "map_of (nodes example_dangling) ''node_3'' \<noteq> None \<and>
   map_of (connections (deleteNode ''node_3'' example_dangling)) ''connection_1'' =
     Some \<lparr>conn_id = ''connection_1'', conn_start = ''node_1'', conn_end = ''node_2''\<rparr> \<and>
   map_of (nodes (deleteNode ''node_3'' example_dangling)) ''node_1'' = None \<and>
   \<not> endpoints_exist (deleteNode ''node_3'' example_dangling)"
  by code_simp

section \<open>Effects of the handlers on the document\<close>

lemma moveNode_other_fields:
  "connections (moveNode k x y s) = connections s \<and>
   savedMaps (moveNode k x y s) = savedMaps s \<and>
   nodeCounter (moveNode k x y s) = nodeCounter s \<and>
   connectionCounter (moveNode k x y s) = connectionCounter s \<and>
   isConnecting (moveNode k x y s) = isConnecting s \<and>
   connectionStart (moveNode k x y s) = connectionStart s \<and>
   currentTool (moveNode k x y s) = currentTool s"
  by (simp add: moveNode_def split: option.split)

lemma fold_moveNode_other_fields:
  "connections (fold (\<lambda>k. moveNode k x y) ks s) = connections s \<and>
   savedMaps (fold (\<lambda>k. moveNode k x y) ks s) = savedMaps s \<and>
   nodeCounter (fold (\<lambda>k. moveNode k x y) ks s) = nodeCounter s \<and>
   connectionCounter (fold (\<lambda>k. moveNode k x y) ks s) = connectionCounter s \<and>
   isConnecting (fold (\<lambda>k. moveNode k x y) ks s) = isConnecting s \<and>
   connectionStart (fold (\<lambda>k. moveNode k x y) ks s) = connectionStart s \<and>
   currentTool (fold (\<lambda>k. moveNode k x y) ks s) = currentTool s"
  by (simp add: fold_field [where f = "\<lambda>k. moveNode k x y"] moveNode_other_fields)

lemma editOne_other_fields:
  "connections (editOne c tc sh k s) = connections s \<and>
   savedMaps (editOne c tc sh k s) = savedMaps s \<and>
   nodeCounter (editOne c tc sh k s) = nodeCounter s \<and>
   connectionCounter (editOne c tc sh k s) = connectionCounter s \<and>
   isConnecting (editOne c tc sh k s) = isConnecting s \<and>
   connectionStart (editOne c tc sh k s) = connectionStart s \<and>
   currentTool (editOne c tc sh k s) = currentTool s"
  by (simp add: editOne_def Let_def split: option.split)

lemma fold_editOne_other_fields:
  "connections (fold (editOne c tc sh) ks s) = connections s \<and>
   savedMaps (fold (editOne c tc sh) ks s) = savedMaps s \<and>
   nodeCounter (fold (editOne c tc sh) ks s) = nodeCounter s \<and>
   connectionCounter (fold (editOne c tc sh) ks s) = connectionCounter s \<and>
   isConnecting (fold (editOne c tc sh) ks s) = isConnecting s \<and>
   connectionStart (fold (editOne c tc sh) ks s) = connectionStart s \<and>
   currentTool (fold (editOne c tc sh) ks s) = currentTool s"
  by (simp add: fold_field [where f = "editOne c tc sh"] editOne_other_fields)

lemma deleteNode_other_fields:
  "savedMaps (deleteNode k s) = savedMaps s \<and>
   nodeCounter (deleteNode k s) = nodeCounter s \<and>
   connectionCounter (deleteNode k s) = connectionCounter s \<and>
   isConnecting (deleteNode k s) = isConnecting s \<and>
   connectionStart (deleteNode k s) = connectionStart s \<and>
   currentTool (deleteNode k s) = currentTool s"
  by (simp add: deleteNode_eq)

lemma fold_deleteNode_other_fields:
  "savedMaps (fold deleteNode ks s) = savedMaps s \<and>
   nodeCounter (fold deleteNode ks s) = nodeCounter s \<and>
   connectionCounter (fold deleteNode ks s) = connectionCounter s \<and>
   isConnecting (fold deleteNode ks s) = isConnecting s \<and>
   connectionStart (fold deleteNode ks s) = connectionStart s \<and>
   currentTool (fold deleteNode ks s) = currentTool s"
  by (simp add: fold_field [where f = deleteNode] deleteNode_other_fields)

lemma fold_deleteNode_filters:
  "\<exists>P Q. connections (fold deleteNode ks s) = filter P (connections s) \<and>
         nodes (fold deleteNode ks s) = filter Q (nodes s)"
proof (induction ks arbitrary: s)
  case Nil
  have "connections s = filter (\<lambda>_. True) (connections s) \<and> nodes s = filter (\<lambda>_. True) (nodes s)"
    by simp
  then show ?case by (simp del: filter_True) blast
next
  case (Cons a ks)
  obtain P Q where 1: "connections (fold deleteNode ks (deleteNode a s)) = filter P (connections (deleteNode a s))"
    and 2: "nodes (fold deleteNode ks (deleteNode a s)) = filter Q (nodes (deleteNode a s))"
    using Cons.IH [of "deleteNode a s"] by blast
  obtain P' where 3: "connections (deleteNode a s) = filter P' (connections s)"
    by (simp add: deleteNode_eq)
  have 4: "nodes (deleteNode a s) = filter (\<lambda>(k, v). a \<noteq> k) (nodes s)"
    by (simp add: deleteNode_eq AList.delete_eq)
  show ?case
    by (simp add: 1 2 3 4) blast
qed

lemmas fold_other_fields =
  fold_moveNode_other_fields fold_editOne_other_fields fold_deleteNode_other_fields

lemma no_self_loops_subset: "no_self_loops cs \<Longrightarrow> set cs' \<subseteq> set cs \<Longrightarrow> no_self_loops cs'"
  unfolding no_self_loops_def by blast

lemma no_self_loops_filter: "no_self_loops cs \<Longrightarrow> no_self_loops (filter P cs)"
  by (erule no_self_loops_subset) simp

lemma set_update_subset: "set (AList.update k v al) \<subseteq> insert (k, v) (set al)"
  by (induction al) auto

lemma no_self_loops_update:
  "no_self_loops cs \<Longrightarrow> conn_start c \<noteq> conn_end c \<Longrightarrow> no_self_loops (AList.update k c cs)"
  unfolding no_self_loops_def using set_update_subset [of k c cs] by auto

lemma set_newMap_subset: "set (newMap al) \<subseteq> set al"
proof -
  have "set (fold (\<lambda>(k, v). AList.update k v) al acc) \<subseteq> set al \<union> set acc" for acc
  proof (induction al arbitrary: acc)
    case Nil
    then show ?case by simp
  next
    case (Cons a al)
    obtain k v where a: "a = (k, v)" by (cases a)
    from Cons.IH [of "AList.update k v acc"] set_update_subset [of k v acc]
    show ?case by (auto simp: a)
  qed
  from this [of "[]"] show ?thesis by (simp add: newMap_def)
qed

lemma no_self_loops_newMap: "no_self_loops cs \<Longrightarrow> no_self_loops (newMap cs)"
  by (erule no_self_loops_subset) (rule set_newMap_subset)

lemma no_self_loops_Nil: "no_self_loops []"
  by (simp add: no_self_loops_def)

lemma store_update:
  "\<forall>(t, d) \<in> set sm. P d \<Longrightarrow> P d0 \<Longrightarrow> \<forall>(t, d) \<in> set (AList.update k d0 sm). P d"
  using set_update_subset [of k d0 sm] by auto

lemma store_delete:
  "\<forall>(t, d) \<in> set sm. P d \<Longrightarrow> \<forall>(t, d) \<in> set (AList.delete k sm). P d"
  by (auto simp: AList.delete_eq)

lemma store_lookup:
  "\<forall>(t, d) \<in> set sm. P d \<Longrightarrow> map_of sm k = Some d0 \<Longrightarrow> P d0"
  by (auto dest: map_of_SomeD)


section \<open>Self-loops\<close>

lemma loops_ok_unchanged:
  assumes "isConnecting s' = isConnecting s" "currentTool s' = currentTool s"
    "connections s' = connections s" "savedMaps s' = savedMaps s"
  shows "loops_ok s' = loops_ok s"
  by (simp add: loops_ok_def assms)

lemma loops_ok_deleteSelected: "loops_ok s \<Longrightarrow> loops_ok (deleteSelected s)"
proof -
  assume ok: "loops_ok s"
  let ?s1 = "fold deleteConnection (selectedConnections s) s"
  obtain P where P: "connections (fold deleteNode (selectedNodes s) ?s1) = filter P (connections ?s1)"
    using fold_deleteNode_filters [of "selectedNodes s" ?s1] by blast
  have "no_self_loops (connections (fold deleteNode (selectedNodes s) ?s1))"
    using ok unfolding P by (simp add: fold_deleteConnection_eq loops_ok_def no_self_loops_filter)
  with ok show ?thesis
    by (simp add: deleteSelected_def clearSelection_def loops_ok_def fold_other_fields
        fold_deleteConnection_eq)
qed

lemma loops_ok_setTool: "loops_ok s \<Longrightarrow> loops_ok (setTool t s)"
  by (simp add: setTool_def clearTempConnection_def loops_ok_def)

lemma loops_ok_clearSelection: "loops_ok (clearSelection s) = loops_ok s"
  by (rule loops_ok_unchanged) (simp_all add: clearSelection_def)

lemma loops_ok_handleKeyDown: "loops_ok s \<Longrightarrow> loops_ok (handleKeyDown key ck inInput s)"
  by (simp add: handleKeyDown_def loops_ok_deleteSelected loops_ok_setTool loops_ok_clearSelection)

lemma loops_ok_saveNodeEdit: "loops_ok (saveNodeEdit tv c tc s) = loops_ok s"
  by (rule loops_ok_unchanged)
     (simp_all add: saveNodeEdit_def saveMultipleNodeEdit_def hideNodeModal_def Let_def
        fold_other_fields split: option.split)

lemma loops_ok_handleCanvasMouseMove: "loops_ok (handleCanvasMouseMove x y s) = loops_ok s"
  by (rule loops_ok_unchanged)
     (simp_all add: handleCanvasMouseMove_def updateTempConnection_def clearTempConnection_def
        Let_def fold_other_fields split: option.split)

lemma loops_ok_handleCanvasClick: "loops_ok (handleCanvasClick x y onNode s) = loops_ok s"
  by (rule loops_ok_unchanged)
     (simp_all add: handleCanvasClick_def createNode_def clearSelection_def Let_def)

lemma loops_ok_handleCanvasMouseDown:
  "loops_ok (handleCanvasMouseDown target ck mk x y s) = loops_ok s"
  by (rule loops_ok_unchanged)
     (simp_all add: handleCanvasMouseDown_def clearSelection_def Let_def split: option.split)

lemma loops_ok_editNode: "loops_ok (editNode n s) = loops_ok s"
  by (rule loops_ok_unchanged)
     (simp_all add: editNode_def editMultipleNodes_def Let_def split: option.split list.split)

lemma loops_ok_startConnection:
  "loops_ok s \<Longrightarrow> currentTool s = ConnectionTool \<Longrightarrow> loops_ok (startConnection n s)"
  by (simp add: startConnection_def selectNode_def clearSelection_def loops_ok_def Let_def)

lemma loops_ok_completeConnection: "loops_ok s \<Longrightarrow> loops_ok (completeConnection n s)"
proof (cases "connectionStart s")
  case None
  then show "loops_ok s \<Longrightarrow> ?thesis"
    by (simp add: completeConnection_def clearTempConnection_def loops_ok_def Let_def)
next
  case (Some a)
  then show "loops_ok s \<Longrightarrow> ?thesis"
    by (simp add: completeConnection_def createConnection_def clearTempConnection_def
        loops_ok_def Let_def no_self_loops_update)
qed

lemma loops_ok_select:
  "loops_ok (selectNode n s) = loops_ok s \<and> loops_ok (toggleNodeSelection n s) = loops_ok s \<and>
   loops_ok (selectConnection n s) = loops_ok s"
  by (intro conjI; rule loops_ok_unchanged)
     (simp_all add: selectNode_def toggleNodeSelection_def selectConnection_def
        clearSelection_def Let_def)

lemma loops_ok_handleNodeClick: "loops_ok s \<Longrightarrow> loops_ok (handleNodeClick ck mk n s)"
  by (simp add: handleNodeClick_def loops_ok_startConnection loops_ok_completeConnection
      loops_ok_select)

lemma loops_ok_clearAll: "loops_ok s \<Longrightarrow> loops_ok (clearAll cf s)"
  by (simp add: clearAll_def clearSelection_def loops_ok_def no_self_loops_Nil)

lemma loops_ok_loadMindMap: "loops_ok s \<Longrightarrow> loops_ok (loadMindMap sel cf s)"
proof (cases sel)
  case None
  then show "loops_ok s \<Longrightarrow> ?thesis" by (simp add: loadMindMap_def)
next
  case (Some fileName)
  note sel = this
  assume ok: "loops_ok s"
  show ?thesis
  proof (cases "map_of (savedMaps s) fileName")
    case None
    with sel ok show ?thesis
      by (simp add: loadMindMap_def clearAll_def clearSelection_def loops_ok_def newMap_def
          no_self_loops_Nil)
  next
    case (Some d)
    with ok have "no_self_loops (md_connections d)"
      unfolding loops_ok_def
      using store_lookup [of "savedMaps s" "\<lambda>d. no_self_loops (md_connections d)" fileName d]
      by blast
    then have "no_self_loops (newMap (md_connections d))"
      by (rule no_self_loops_newMap)
    with ok Some sel show ?thesis
      by (simp add: loadMindMap_def clearAll_def clearSelection_def loops_ok_def)
  qed
qed

lemma loops_ok_saveMindMap: "loops_ok s \<Longrightarrow> loops_ok (saveMindMap fn now s)"
proof -
  assume ok: "loops_ok s"
  let ?d = "\<lparr>md_title = trim fn, md_nodes = nodes s, md_connections = connections s,
             md_nodeCounter = nodeCounter s, md_connectionCounter = connectionCounter s,
             md_savedAt = now\<rparr>"
  from ok have "\<forall>(t, d) \<in> set (AList.update (trim fn) ?d (savedMaps s)). no_self_loops (md_connections d)"
    unfolding loops_ok_def
    by (intro store_update [where P = "\<lambda>d. no_self_loops (md_connections d)"]) simp_all
  with ok show ?thesis
    by (simp add: saveMindMap_def loops_ok_def Let_def)
qed

lemma loops_ok_deleteSavedFile: "loops_ok s \<Longrightarrow> loops_ok (deleteSavedFile fn cf s)"
proof -
  assume ok: "loops_ok s"
  then have "\<forall>(t, d) \<in> set (AList.delete fn (savedMaps s)). no_self_loops (md_connections d)"
    unfolding loops_ok_def
    by (intro store_delete [where P = "\<lambda>d. no_self_loops (md_connections d)"]) simp
  with ok show ?thesis
    by (simp add: deleteSavedFile_def loops_ok_def)
qed

lemma loops_ok_view:
  "loops_ok (zoomIn s) = loops_ok s \<and> loops_ok (zoomOut s) = loops_ok s \<and>
   loops_ok (resetZoom s) = loops_ok s \<and> loops_ok (handleCanvasWheel d s) = loops_ok s \<and>
   loops_ok (handleCanvasMouseUp s) = loops_ok s \<and> loops_ok (hideNodeModal s) = loops_ok s \<and>
   loops_ok (s\<lparr>selectedShape := sh\<rparr>) = loops_ok s \<and>
   loops_ok (createWelcomeNode x y s) = loops_ok s"
  by (intro conjI; rule loops_ok_unchanged)
     (simp_all add: zoomIn_def zoomOut_def resetZoom_def handleCanvasWheel_def
        handleCanvasMouseUp_def hideNodeModal_def createWelcomeNode_def createNode_def Let_def)

lemma loops_ok_step: "loops_ok s \<Longrightarrow> loops_ok (step e s)"
  by (cases e)
     (simp_all add: loops_ok_setTool loops_ok_handleCanvasClick loops_ok_handleCanvasMouseMove
        loops_ok_handleCanvasMouseDown loops_ok_view loops_ok_handleKeyDown
        loops_ok_handleNodeClick loops_ok_editNode loops_ok_select handleConnectionClick_def
        loops_ok_saveNodeEdit loops_ok_deleteSelected loops_ok_clearAll loops_ok_saveMindMap
        loops_ok_loadMindMap loops_ok_deleteSavedFile)

lemma loops_ok_init: "loops_ok init_state"
  by (simp add: loops_ok_def init_state_def no_self_loops_Nil)

lemma loops_ok_run: "loops_ok (run evs init_state)"
  unfolding run_def
  by (rule fold_invariant [where I = loops_ok]) (simp_all add: loops_ok_step loops_ok_init)

text \<open>
  C7.  In every state that events reach from the initial state: while a connection is in
  progress and \<^verbatim>\<open>connectionStart\<close> is the node \<open>n\<close>, a click on \<open>n\<close> leaves the whole state
  as it is (no connection is created, \<^verbatim>\<open>isConnecting\<close> and \<^verbatim>\<open>connectionStart\<close> stay); and
  no connection of the document starts and ends at the same node.
\<close>

theorem same_node_click_noop:
  "(isConnecting (run evs init_state) \<and> connectionStart (run evs init_state) = Some n \<longrightarrow>
      step (NodeClick ctrlKey metaKey n) (run evs init_state) = run evs init_state) \<and>
   (\<forall>(k, c) \<in> set (connections (run evs init_state)). conn_start c \<noteq> conn_end c)"
  using loops_ok_run [of evs]
  by (simp add: loops_ok_def no_self_loops_def handleNodeClick_def)

theorem same_node_click_noop_witness:
  "isConnecting example_connecting \<and> connectionStart example_connecting = Some ''node_1'' \<and>
   step (NodeClick False False ''node_1'') example_connecting = example_connecting"
proof -
  have run: "example_connecting =
      run [WelcomeTimer 400 300, ToolButton NodeTool, CanvasClick 10 10 False,
           CanvasClick 200 10 False, ToolButton ConnectionTool,
           NodeClick False False ''node_1''] init_state"
    by (simp add: example_connecting_def example_doc_def run_def)
  have connecting: "isConnecting example_connecting \<and> connectionStart example_connecting = Some ''node_1''"
    by code_simp
  from same_node_click_noop [of "[WelcomeTimer 400 300, ToolButton NodeTool, CanvasClick 10 10 False,
           CanvasClick 200 10 False, ToolButton ConnectionTool,
           NodeClick False False ''node_1'']" "''node_1''" False False] connecting
  show ?thesis
    unfolding run [symmetric] by blast
qed

section \<open>Saving and loading\<close>

lemma keys_bounded_Nil: "keys_bounded pfx [] counter"
  by (simp add: keys_bounded_iff)

lemma keys_bounded_keys:
  "map fst al' = map fst al \<Longrightarrow> keys_bounded pfx al' counter = keys_bounded pfx al counter"
proof -
  assume eq: "map fst al' = map fst al"
  then have "set (map fst al') = set (map fst al)" by simp
  then have "fst ` set al' = fst ` set al" by simp
  with eq show ?thesis by (simp add: keys_bounded_iff)
qed

lemma keys_bounded_filter:
  "keys_bounded pfx al counter \<Longrightarrow> keys_bounded pfx (filter P al) counter"
  unfolding keys_bounded_iff by (auto simp: distinct_map_filter)

lemma keys_bounded_delete:
  "keys_bounded pfx al counter \<Longrightarrow> keys_bounded pfx (AList.delete k al) counter"
  by (simp add: AList.delete_eq keys_bounded_filter)

lemma keys_bounded_update_new:
  assumes "keys_bounded pfx al counter"
  shows "keys_bounded pfx (AList.update (pfx @ string_of_nat (Suc counter)) v al) (Suc counter)"
proof -
  have fresh: "pfx @ string_of_nat (Suc counter) \<notin> fst ` set al"
    using keys_bounded_fresh [OF assms, of 1] by simp
  have "\<exists>i\<ge>1. i \<le> Suc counter \<and> k = pfx @ string_of_nat i" if "k \<in> fst ` set al" for k
    using assms that unfolding keys_bounded_iff by (meson le_SucI)
  moreover have "\<exists>i\<ge>1. i \<le> Suc counter \<and> pfx @ string_of_nat (Suc counter) = pfx @ string_of_nat i"
    by (rule exI [of _ "Suc counter"]) simp
  ultimately show ?thesis
    using assms fresh by (auto simp: keys_bounded_iff update_fresh)
qed

lemmas keys_bounded_new_node = keys_bounded_update_new [where pfx = "''node_''", simplified]

lemmas keys_bounded_new_connection =
  keys_bounded_update_new [where pfx = "''connection_''", simplified]

lemmas node_id_fresh = keys_bounded_fresh [where pfx = "''node_''", simplified]

lemmas connection_id_fresh = keys_bounded_fresh [where pfx = "''connection_''", simplified]

lemma keys_bounded_update_present:
  "map_of al k = Some v \<Longrightarrow>
   keys_bounded pfx (AList.update k v' al) counter = keys_bounded pfx al counter"
  by (rule keys_bounded_keys) (rule update_keys_present)

lemma fold_update_append:
  "distinct (map fst al) \<Longrightarrow> fst ` set al \<inter> fst ` set acc = {} \<Longrightarrow>
   fold (\<lambda>(k, v). AList.update k v) al acc = acc @ al"
proof (induction al arbitrary: acc)
  case Nil
  then show ?case by simp
next
  case (Cons a al)
  obtain k v where a: "a = (k, v)" by (cases a)
  from Cons.prems a have fresh: "k \<notin> fst ` set acc" by auto
  have "fold (\<lambda>(k, v). AList.update k v) al (acc @ [(k, v)]) = (acc @ [(k, v)]) @ al"
    using Cons.prems a by (intro Cons.IH) auto
  with fresh show ?case
    by (simp add: a update_fresh)
qed

lemma newMap_distinct: "distinct (map fst al) \<Longrightarrow> newMap al = al"
  using fold_update_append [of al "[]"] by (simp add: newMap_def)

lemma newMap_keys_bounded: "keys_bounded pfx al counter \<Longrightarrow> newMap al = al"
  by (simp add: keys_bounded_iff newMap_distinct)

lemma ids_ok_unchanged:
  assumes "nodes s' = nodes s" "connections s' = connections s" "nodeCounter s' = nodeCounter s"
    "connectionCounter s' = connectionCounter s" "savedMaps s' = savedMaps s"
  shows "ids_ok s' = ids_ok s"
  by (simp add: ids_ok_def assms)

lemma ids_ok_nodes_keys:
  assumes "map fst (nodes s') = map fst (nodes s)" "connections s' = connections s"
    "nodeCounter s' = nodeCounter s" "connectionCounter s' = connectionCounter s"
    "savedMaps s' = savedMaps s"
  shows "ids_ok s' = ids_ok s"
  by (simp add: ids_ok_def assms keys_bounded_keys [OF assms(1)])

lemma ids_ok_createNode: "ids_ok s \<Longrightarrow> ids_ok (snd (createNode x y str c tc shp s))"
  by (simp add: createNode_def Let_def ids_ok_def keys_bounded_new_node)

lemma ids_ok_createConnection: "ids_ok s \<Longrightarrow> ids_ok (snd (createConnection a b s))"
  by (simp add: createConnection_def Let_def ids_ok_def keys_bounded_new_connection)

lemma moveNode_keys: "map fst (nodes (moveNode k x y s)) = map fst (nodes s)"
  by (cases "map_of (nodes s) k") (simp_all add: moveNode_def update_keys_present)

lemma fold_moveNode_keys: "map fst (nodes (fold (\<lambda>k. moveNode k x y) ks s)) = map fst (nodes s)"
  by (rule fold_field [where g = "\<lambda>s. map fst (nodes s)"]) (rule moveNode_keys)

lemma ids_ok_sel:
  "ids_ok (clearSelection s) = ids_ok s \<and> ids_ok (selectNode n s) = ids_ok s \<and>
   ids_ok (toggleNodeSelection n s) = ids_ok s \<and> ids_ok (selectConnection n s) = ids_ok s \<and>
   ids_ok (setTool t s) = ids_ok s \<and> ids_ok (clearTempConnection s) = ids_ok s \<and>
   ids_ok (hideNodeModal s) = ids_ok s"
  by (intro conjI; rule ids_ok_unchanged)
     (simp_all add: selectNode_def toggleNodeSelection_def selectConnection_def
        clearSelection_def setTool_def clearTempConnection_def hideNodeModal_def Let_def)

lemma ids_ok_view:
  "ids_ok (zoomIn s) = ids_ok s \<and> ids_ok (zoomOut s) = ids_ok s \<and>
   ids_ok (resetZoom s) = ids_ok s \<and> ids_ok (handleCanvasWheel d s) = ids_ok s \<and>
   ids_ok (handleCanvasMouseUp s) = ids_ok s \<and> ids_ok (s\<lparr>selectedShape := sh\<rparr>) = ids_ok s"
  by (intro conjI; rule ids_ok_unchanged)
     (simp_all add: zoomIn_def zoomOut_def resetZoom_def handleCanvasWheel_def
        handleCanvasMouseUp_def Let_def)

lemma ids_ok_handleCanvasClick: "ids_ok s \<Longrightarrow> ids_ok (handleCanvasClick x y onNode s)"
  by (simp add: handleCanvasClick_def Let_def ids_ok_createNode ids_ok_sel)

lemma ids_ok_handleCanvasMouseMove: "ids_ok (handleCanvasMouseMove x y s) = ids_ok s"
  by (rule ids_ok_nodes_keys)
     (simp_all add: handleCanvasMouseMove_def updateTempConnection_def clearTempConnection_def
        Let_def fold_other_fields fold_moveNode_keys split: option.split)

lemma ids_ok_handleCanvasMouseDown: "ids_ok (handleCanvasMouseDown target ck mk x y s) = ids_ok s"
  by (rule ids_ok_unchanged)
     (simp_all add: handleCanvasMouseDown_def clearSelection_def Let_def split: option.split)

lemma ids_ok_editNode: "ids_ok (editNode n s) = ids_ok s"
  by (rule ids_ok_unchanged)
     (simp_all add: editNode_def editMultipleNodes_def Let_def split: option.split list.split)

lemma ids_ok_saveNodeEdit: "ids_ok (saveNodeEdit tv c tc s) = ids_ok s"
  by (rule ids_ok_nodes_keys)
     (simp_all add: saveNodeEdit_def saveMultipleNodeEdit_def hideNodeModal_def Let_def
        fold_other_fields fold_editOne_keys update_keys_present split: option.split)

lemma ids_ok_deleteSelected: "ids_ok s \<Longrightarrow> ids_ok (deleteSelected s)"
proof -
  assume ok: "ids_ok s"
  let ?s1 = "s\<lparr>connections :=
               filter (\<lambda>(k, c). k \<notin> set (selectedConnections s)) (connections s)\<rparr>"
  obtain P Q where P: "connections (fold deleteNode (selectedNodes s) ?s1) = filter P (connections ?s1)"
    and Q: "nodes (fold deleteNode (selectedNodes s) ?s1) = filter Q (nodes ?s1)"
    using fold_deleteNode_filters [of "selectedNodes s" ?s1] by blast
  from ok show ?thesis
    by (simp add: deleteSelected_def clearSelection_def ids_ok_def fold_other_fields P Q
        fold_deleteConnection_eq keys_bounded_filter)
qed

lemma ids_ok_handleKeyDown: "ids_ok s \<Longrightarrow> ids_ok (handleKeyDown key ck inInput s)"
  by (simp add: handleKeyDown_def ids_ok_deleteSelected ids_ok_sel)

lemma ids_ok_handleNodeClick: "ids_ok s \<Longrightarrow> ids_ok (handleNodeClick ck mk n s)"
proof -
  assume ok: "ids_ok s"
  have start: "ids_ok (startConnection n s)"
    using ok by (simp add: startConnection_def selectNode_def clearSelection_def ids_ok_def Let_def)
  have complete: "ids_ok (completeConnection n s)"
    using ok ids_ok_createConnection [OF ok, of "the (connectionStart s)" n]
    by (simp add: completeConnection_def clearTempConnection_def ids_ok_def Let_def)
  from ok start complete show ?thesis
    by (simp add: handleNodeClick_def ids_ok_sel)
qed

lemma ids_ok_clearAll: "ids_ok s \<Longrightarrow> ids_ok (clearAll cf s)"
  by (simp add: clearAll_def clearSelection_def ids_ok_def keys_bounded_Nil)

lemma ids_ok_loadMindMap: "ids_ok s \<Longrightarrow> ids_ok (loadMindMap sel cf s)"
proof (cases sel)
  case None
  then show "ids_ok s \<Longrightarrow> ?thesis" by (simp add: loadMindMap_def)
next
  case (Some fileName)
  note sel = this
  assume ok: "ids_ok s"
  show ?thesis
  proof (cases "map_of (savedMaps s) fileName")
    case None
    with sel ok show ?thesis
      by (simp add: loadMindMap_def clearAll_def clearSelection_def ids_ok_def newMap_def
          keys_bounded_Nil)
  next
    case (Some d)
    with ok have d: "keys_bounded ''node_'' (md_nodes d) (md_nodeCounter d) \<and>
        keys_bounded ''connection_'' (md_connections d) (md_connectionCounter d)"
      unfolding ids_ok_def
      using store_lookup [of "savedMaps s"
          "\<lambda>d. keys_bounded ''node_'' (md_nodes d) (md_nodeCounter d) \<and>
               keys_bounded ''connection_'' (md_connections d) (md_connectionCounter d)" fileName d]
      by blast
    moreover from d have "newMap (md_nodes d) = md_nodes d"
      and "newMap (md_connections d) = md_connections d"
      by (blast intro: newMap_keys_bounded)+
    ultimately show ?thesis
      using ok Some sel
      by (simp add: loadMindMap_def clearAll_def clearSelection_def ids_ok_def)
  qed
qed

lemma ids_ok_saveMindMap: "ids_ok s \<Longrightarrow> ids_ok (saveMindMap fn now s)"
proof -
  assume ok: "ids_ok s"
  let ?d = "\<lparr>md_title = trim fn, md_nodes = nodes s, md_connections = connections s,
             md_nodeCounter = nodeCounter s, md_connectionCounter = connectionCounter s,
             md_savedAt = now\<rparr>"
  from ok have "\<forall>(t, d) \<in> set (AList.update (trim fn) ?d (savedMaps s)).
      keys_bounded ''node_'' (md_nodes d) (md_nodeCounter d) \<and>
      keys_bounded ''connection_'' (md_connections d) (md_connectionCounter d)"
    unfolding ids_ok_def
    by (intro store_update [where P = "\<lambda>d. keys_bounded ''node_'' (md_nodes d) (md_nodeCounter d) \<and>
      keys_bounded ''connection_'' (md_connections d) (md_connectionCounter d)"]) simp_all
  with ok show ?thesis
    by (simp add: saveMindMap_def ids_ok_def Let_def)
qed

lemma ids_ok_deleteSavedFile: "ids_ok s \<Longrightarrow> ids_ok (deleteSavedFile fn cf s)"
proof -
  assume ok: "ids_ok s"
  then have "\<forall>(t, d) \<in> set (AList.delete fn (savedMaps s)).
      keys_bounded ''node_'' (md_nodes d) (md_nodeCounter d) \<and>
      keys_bounded ''connection_'' (md_connections d) (md_connectionCounter d)"
    unfolding ids_ok_def
    by (intro store_delete [where P = "\<lambda>d. keys_bounded ''node_'' (md_nodes d) (md_nodeCounter d) \<and>
      keys_bounded ''connection_'' (md_connections d) (md_connectionCounter d)"]) simp
  with ok show ?thesis
    by (simp add: deleteSavedFile_def ids_ok_def)
qed

lemma ids_ok_step: "ids_ok s \<Longrightarrow> ids_ok (step e s)"
  by (cases e)
     (simp_all add: ids_ok_sel ids_ok_view ids_ok_handleCanvasClick ids_ok_handleCanvasMouseMove
        ids_ok_handleCanvasMouseDown ids_ok_handleKeyDown ids_ok_handleNodeClick ids_ok_editNode
        handleConnectionClick_def ids_ok_saveNodeEdit ids_ok_deleteSelected ids_ok_clearAll
        ids_ok_saveMindMap ids_ok_loadMindMap ids_ok_deleteSavedFile createWelcomeNode_def
        ids_ok_createNode)

lemma ids_ok_init: "ids_ok init_state"
  by (simp add: ids_ok_def init_state_def keys_bounded_Nil)

lemma ids_ok_run: "ids_ok (run evs init_state)"
  unfolding run_def
  by (rule fold_invariant [where I = ids_ok]) (simp_all add: ids_ok_step ids_ok_init)

lemma load_after_save:
  assumes "trim fn \<noteq> []" "trim fn \<noteq> ''__proto__''" "ids_ok s"
  shows "nodes (loadMindMap (Some (trim fn)) cf (saveMindMap fn now s)) = nodes s \<and>
         connections (loadMindMap (Some (trim fn)) cf (saveMindMap fn now s)) = connections s \<and>
         nodeCounter (loadMindMap (Some (trim fn)) cf (saveMindMap fn now s)) = nodeCounter s \<and>
         connectionCounter (loadMindMap (Some (trim fn)) cf (saveMindMap fn now s)) = connectionCounter s"
proof -
  from assms(3) have "newMap (nodes s) = nodes s" and "newMap (connections s) = connections s"
    unfolding ids_ok_def by (blast intro: newMap_keys_bounded)+
  with assms(1,2) show ?thesis
    by (simp add: loadMindMap_def saveMindMap_def Let_def map_of_update_same clearAll_def
        clearSelection_def)
qed

text \<open>
  Save then load.  In every state that events reach from the initial state, saving under
  a file name that is not empty after \<^verbatim>\<open>trim()\<close> and is not \<^verbatim>\<open>__proto__\<close>, and then loading
  that name, gives back the node map and the connection map as they were, entry for
  entry and in order, and the two counters; and the ids made from the counters after the
  load are not among the loaded ids.
\<close>

theorem save_load_roundtrip:
  "trim fileNameValue \<noteq> [] \<and> trim fileNameValue \<noteq> ''__proto__'' \<longrightarrow>
   (let s = run evs init_state;
        s' = loadMindMap (Some (trim fileNameValue)) confirmed (saveMindMap fileNameValue now s)
    in nodes s' = nodes s \<and> connections s' = connections s \<and>
       nodeCounter s' = nodeCounter s \<and> connectionCounter s' = connectionCounter s \<and>
       (\<forall>j. 0 < j \<longrightarrow>
          ''node_'' @ string_of_nat (nodeCounter s' + j) \<notin> fst ` set (nodes s') \<and>
          ''connection_'' @ string_of_nat (connectionCounter s' + j) \<notin> fst ` set (connections s')) \<and>
       fst (createNode x y str c tc shp s') \<notin> fst ` set (nodes s') \<and>
       fst (createConnection a b s') \<notin> fst ` set (connections s'))"
proof (intro impI, elim conjE)
  assume name: "trim fileNameValue \<noteq> []" and proto: "trim fileNameValue \<noteq> ''__proto__''"
  let ?s = "run evs init_state"
  let ?s' = "loadMindMap (Some (trim fileNameValue)) confirmed (saveMindMap fileNameValue now ?s)"
  have ok: "ids_ok ?s" by (rule ids_ok_run)
  note same = load_after_save [OF name proto ok, of confirmed now]
  have fresh: "''node_'' @ string_of_nat (nodeCounter ?s + j) \<notin> fst ` set (nodes ?s) \<and>
      ''connection_'' @ string_of_nat (connectionCounter ?s + j) \<notin> fst ` set (connections ?s)"
    if "0 < j" for j
    using ok that unfolding ids_ok_def by (simp add: node_id_fresh connection_id_fresh)
  have next_node: "fst (createNode x y str c tc shp ?s') = ''node_'' @ string_of_nat (nodeCounter ?s + 1)"
    by (simp add: createNode_def Let_def same)
  have next_conn: "fst (createConnection a b ?s') = ''connection_'' @ string_of_nat (connectionCounter ?s + 1)"
    by (simp add: createConnection_def Let_def same)
  show "let s = ?s; s' = loadMindMap (Some (trim fileNameValue)) confirmed (saveMindMap fileNameValue now s)
    in nodes s' = nodes s \<and> connections s' = connections s \<and>
       nodeCounter s' = nodeCounter s \<and> connectionCounter s' = connectionCounter s \<and>
       (\<forall>j. 0 < j \<longrightarrow>
          ''node_'' @ string_of_nat (nodeCounter s' + j) \<notin> fst ` set (nodes s') \<and>
          ''connection_'' @ string_of_nat (connectionCounter s' + j) \<notin> fst ` set (connections s')) \<and>
       fst (createNode x y str c tc shp s') \<notin> fst ` set (nodes s') \<and>
       fst (createConnection a b s') \<notin> fst ` set (connections s')"
  proof -
    have 1: "fst (createNode x y str c tc shp ?s') \<notin> fst ` set (nodes ?s')"
      using fresh [of 1] by (simp add: next_node same)
    have 2: "fst (createConnection a b ?s') \<notin> fst ` set (connections ?s')"
      using fresh [of 1] by (simp add: next_conn same)
    have 3: "\<forall>j. 0 < j \<longrightarrow>
          ''node_'' @ string_of_nat (nodeCounter ?s' + j) \<notin> fst ` set (nodes ?s') \<and>
          ''connection_'' @ string_of_nat (connectionCounter ?s' + j) \<notin> fst ` set (connections ?s')"
      using fresh by (simp add: same)
    from 1 2 3 same show ?thesis
      unfolding Let_def by blast
  qed
qed

theorem save_load_roundtrip_witness:
  "trim ''  my map '' = ''my map'' \<and>
   nodes (loadMindMap (Some ''my map'') True (saveMindMap ''  my map '' ''2024-01-01'' example_connected)) =
     nodes example_connected \<and>
   connections (loadMindMap (Some ''my map'') True (saveMindMap ''  my map '' ''2024-01-01'' example_connected)) =
     connections example_connected \<and>
   nodeCounter (loadMindMap (Some ''my map'') True (saveMindMap ''  my map '' ''2024-01-01'' example_connected)) = 3 \<and>
   fst (createNode 0 0 ''New Node'' ''#4A90E2'' ''#FFFFFF'' Circle
         (loadMindMap (Some ''my map'') True (saveMindMap ''  my map '' ''2024-01-01'' example_connected)))
     \<notin> fst ` set (nodes example_connected)"
proof -
  have run: "example_connected =
      run [WelcomeTimer 400 300, ToolButton NodeTool, CanvasClick 10 10 False,
           CanvasClick 200 10 False, ToolButton ConnectionTool,
           NodeClick False False ''node_1'', NodeClick False False ''node_2'',
           NodeClick False False ''node_2'', NodeClick False False ''node_3''] init_state"
    by (simp add: example_connected_def example_doc_def run_def)
  have name: "trim ''  my map '' = ''my map''"
    by code_simp
  have counter: "nodeCounter example_connected = 3"
    by code_simp
  have hyp: "trim ''  my map '' \<noteq> [] \<and> trim ''  my map '' \<noteq> ''__proto__''"
    by (simp add: name)
  from save_load_roundtrip [of "''  my map ''"
      "[WelcomeTimer 400 300, ToolButton NodeTool, CanvasClick 10 10 False,
           CanvasClick 200 10 False, ToolButton ConnectionTool,
           NodeClick False False ''node_1'', NodeClick False False ''node_2'',
           NodeClick False False ''node_2'', NodeClick False False ''node_3'']"
      True "''2024-01-01''" 0 0 "''New Node''" "''#4A90E2''" "''#FFFFFF''" Circle "''node_1''" "''node_2''"]
    hyp
  have "nodes (loadMindMap (Some ''my map'') True (saveMindMap ''  my map '' ''2024-01-01'' example_connected)) =
     nodes example_connected"
    and "connections (loadMindMap (Some ''my map'') True (saveMindMap ''  my map '' ''2024-01-01'' example_connected)) =
     connections example_connected"
    and "nodeCounter (loadMindMap (Some ''my map'') True (saveMindMap ''  my map '' ''2024-01-01'' example_connected)) =
     nodeCounter example_connected"
    and "fst (createNode 0 0 ''New Node'' ''#4A90E2'' ''#FFFFFF'' Circle
         (loadMindMap (Some ''my map'') True (saveMindMap ''  my map '' ''2024-01-01'' example_connected)))
     \<notin> fst ` set (nodes (loadMindMap (Some ''my map'') True (saveMindMap ''  my map '' ''2024-01-01'' example_connected)))"
    unfolding run [symmetric] Let_def name by blast+
  with name counter show ?thesis
    by simp
qed

text \<open>
  C3 fails for the file name \<^verbatim>\<open>__proto__\<close>.  The name is not empty, so \<^verbatim>\<open>saveMindMap\<close> goes
  on to report success, but nothing is stored; and \<^verbatim>\<open>loadMindMap\<close> on that name finds the
  inherited property and leaves an empty document with both counters at 0, where the
  document saved had three nodes, two connections and the node counter 3.
\<close>

theorem save_under_proto_lost:
  "trim ''__proto__'' = ''__proto__'' \<and>
   savedMaps (saveMindMap ''__proto__'' ''2024-01-01'' example_connected) = [] \<and>
   nodes (loadMindMap (Some ''__proto__'') True
            (saveMindMap ''__proto__'' ''2024-01-01'' example_connected)) = [] \<and>
   connections (loadMindMap (Some ''__proto__'') True
            (saveMindMap ''__proto__'' ''2024-01-01'' example_connected)) = [] \<and>
   nodeCounter (loadMindMap (Some ''__proto__'') True
            (saveMindMap ''__proto__'' ''2024-01-01'' example_connected)) = 0 \<and>
   map fst (nodes example_connected) = [''node_1'', ''node_2'', ''node_3''] \<and>
   map fst (connections example_connected) = [''connection_1'', ''connection_2''] \<and>
   nodeCounter example_connected = 3"
  by code_simp

end
